theory Spec2Isabelle
  imports Main "HOL-Library.Sublist"
begin

section \<open>JavaScript values used by the test harness\<close>

text \<open>
  Response bodies, tokens, ids and the report tree are JSON values. A JavaScript
  expression that may be \<open>undefined\<close> is a \<open>json option\<close>, \<open>None\<close> being
  \<open>undefined\<close>. Numbers are modelled as integers.
\<close>

datatype json =
    JNull
  | JBool bool
  | JNum int
  | JStr string
  | JArr "json list"
  | JObj "(string \<times> json) list"

text \<open>A thrown JavaScript error: its \<open>message\<close>, and the HTTP response that axios
  attaches to it when the server answered with an error status.\<close>

record http_response =
  status :: nat
  data :: json

record js_error =
  message :: string
  response :: "http_response option"

definition TypeError :: "string \<Rightarrow> js_error" where
  "TypeError m = \<lparr>message = m, response = None\<rparr>"

text \<open>Truthiness, as tested by \<open>if (v)\<close>, \<open>!v\<close>, \<open>a || b\<close> and \<open>Boolean(v)\<close>.\<close>

fun truthy :: "json option \<Rightarrow> bool" where
  "truthy None = False"
| "truthy (Some JNull) = False"
| "truthy (Some (JBool b)) = b"
| "truthy (Some (JNum n)) = (n \<noteq> 0)"
| "truthy (Some (JStr s)) = (s \<noteq> [])"
| "truthy (Some (JArr xs)) = True"
| "truthy (Some (JObj kvs)) = True"

text \<open>\<open>a || b\<close>\<close>

definition js_or :: "json option \<Rightarrow> json option \<Rightarrow> json option" where
  "js_or a b = (if truthy a then a else b)"

text \<open>Property read \<open>v.k\<close> for a key that is not a built-in member: it throws a
  TypeError on \<open>null\<close> and \<open>undefined\<close>, looks the key up in an object and is
  \<open>undefined\<close> on every other value.\<close>

fun member :: "json option \<Rightarrow> string \<Rightarrow> js_error + json option" where
  "member None k = Inl (TypeError ''Cannot read properties of undefined'')"
| "member (Some JNull) k = Inl (TypeError ''Cannot read properties of null'')"
| "member (Some (JObj kvs)) k = Inr (map_of kvs k)"
| "member (Some v) k = Inr None"

text \<open>Optional chaining \<open>v?.k\<close>: \<open>undefined\<close> when \<open>v\<close> is \<open>null\<close> or
  \<open>undefined\<close>, the property read otherwise. It never throws.\<close>

fun opt_member :: "json option \<Rightarrow> string \<Rightarrow> json option" where
  "opt_member None k = None"
| "opt_member (Some JNull) k = None"
| "opt_member (Some (JObj kvs)) k = map_of kvs k"
| "opt_member (Some v) k = None"

text \<open>Optional chaining with an index, \<open>v?.[0]\<close>.\<close>

fun opt_index0 :: "json option \<Rightarrow> json option" where
  "opt_index0 None = None"
| "opt_index0 (Some JNull) = None"
| "opt_index0 (Some (JArr xs)) = (case xs of [] \<Rightarrow> None | x # _ \<Rightarrow> Some x)"
| "opt_index0 (Some (JStr s)) = (case s of [] \<Rightarrow> None | c # _ \<Rightarrow> Some (JStr [c]))"
| "opt_index0 (Some (JObj kvs)) = map_of kvs ''0''"
| "opt_index0 (Some v) = None"

text \<open>Decimal digits of a natural number, and the string a template literal
  \<open>`${v}`\<close> yields for a JSON value.\<close>

fun dec_nat :: "nat \<Rightarrow> string" where
  "dec_nat n = (if n < 10 then [char_of (48 + n)]
                else dec_nat (n div 10) @ [char_of (48 + n mod 10)])"

declare dec_nat.simps [simp del]

definition dec_int :: "int \<Rightarrow> string" where
  "dec_int i = (if i < 0 then CHR ''-'' # dec_nat (nat (- i)) else dec_nat (nat i))"

fun intersperse_comma :: "string list \<Rightarrow> string" where
  "intersperse_comma [] = []"
| "intersperse_comma [s] = s"
| "intersperse_comma (s # t # ss) = s @ '','' @ intersperse_comma (t # ss)"

fun js_string :: "json \<Rightarrow> string" where
  "js_string JNull = ''null''"
| "js_string (JBool b) = (if b then ''true'' else ''false'')"
| "js_string (JNum n) = dec_int n"
| "js_string (JStr s) = s"
| "js_string (JArr xs) =
     intersperse_comma (map (\<lambda>x. case x of JNull \<Rightarrow> [] | _ \<Rightarrow> js_string x) xs)"
| "js_string (JObj kvs) = ''[object Object]''"

text \<open>\<open>obj[k] = v\<close>: an existing key keeps its place, a new key goes last.\<close>

fun assign :: "string \<Rightarrow> 'v \<Rightarrow> (string \<times> 'v) list \<Rightarrow> (string \<times> 'v) list" where
  "assign k v [] = [(k, v)]"
| "assign k v ((k', v') # kvs) =
     (if k' = k then (k, v) # kvs else (k', v') # assign k v kvs)"

section \<open>The axios client of \<open>BackendApiTester\<close>\<close>

datatype http_method = GET | POST | PUT | DELETE

record http_request =
  verb :: http_method
  url :: string
  body :: "json option"
  headers :: "(string \<times> string) list"

text \<open>
  The backend is the environment: it answers a request, given the requests sent before
  it, with what the awaited axios call yields, a response (\<open>Inr\<close>) or a thrown error
  (\<open>Inl\<close>: a transport failure, or an error status, which axios rejects with the
  response attached to the error).
\<close>

type_synonym server = "http_request list \<Rightarrow> http_request \<Rightarrow> js_error + http_response"

text \<open>The tester object: its private \<open>authToken\<close>, and a log of the requests sent so
  far, each with the answer it got.\<close>

record tester =
  authToken :: "json option"
  exchanges :: "(http_request \<times> (js_error + http_response)) list"

text \<open>The constructor: no token yet, no request sent.\<close>

definition new_tester :: tester where
  "new_tester = \<lparr>authToken = None, exchanges = []\<rparr>"

text \<open>The request interceptor of the constructor:
  \<open>if (this.authToken) config.headers.Authorization = `Bearer ${this.authToken}`\<close>.\<close>

definition interceptor :: "tester \<Rightarrow> http_request \<Rightarrow> http_request" where
  "interceptor t config =
     (if truthy (authToken t)
      then config\<lparr>headers := assign ''Authorization''
             (''Bearer '' @ js_string (the (authToken t))) (headers config)\<rparr>
      else config)"

text \<open>The request that leaves the client: the defaults of \<open>axios.create\<close>, passed
  through the interceptor.\<close>

definition outgoing :: "tester \<Rightarrow> http_method \<Rightarrow> string \<Rightarrow> json option \<Rightarrow> http_request" where
  "outgoing t m u b = interceptor t
     \<lparr>verb = m, url = u, body = b, headers = [(''Content-Type'', ''application/json'')]\<rparr>"

text \<open>A computation over a state \<open>'s\<close>: it returns a value (\<open>Inr\<close>) or throws
  (\<open>Inl\<close>), and updates the state. \<open>seq\<close> is sequencing of statements, an exception
  skipping what follows; \<open>try_catch\<close> is \<open>try { blk } catch (error) { handler }\<close>.\<close>

type_synonym ('s, 'a) comp = "'s \<Rightarrow> (js_error + 'a) \<times> 's"

definition ret :: "'a \<Rightarrow> ('s, 'a) comp" where
  "ret x t = (Inr x, t)"

definition seq :: "('s, 'a) comp \<Rightarrow> ('a \<Rightarrow> ('s, 'b) comp) \<Rightarrow> ('s, 'b) comp" where
  "seq m f t = (case m t of (Inl e, t') \<Rightarrow> (Inl e, t') | (Inr x, t') \<Rightarrow> f x t')"

definition try_catch ::
  "('s, 'a) comp \<Rightarrow> (js_error \<Rightarrow> ('s, 'a) comp) \<Rightarrow> ('s, 'a) comp" where
  "try_catch blk handler t =
     (case blk t of (Inl e, t') \<Rightarrow> handler e t' | (Inr x, t') \<Rightarrow> (Inr x, t'))"

text \<open>An expression that may throw, evaluated without touching the state.\<close>

definition lift :: "js_error + 'a \<Rightarrow> ('s, 'a) comp" where
  "lift r t = (r, t)"

definition client_request ::
  "server \<Rightarrow> http_method \<Rightarrow> string \<Rightarrow> json option \<Rightarrow> (tester, http_response) comp" where
  "client_request srv m u b t =
     (let req = outgoing t m u b;
          answer = srv (map fst (exchanges t)) req
      in (answer, t\<lparr>exchanges := exchanges t @ [(req, answer)]\<rparr>))"

definition client_get :: "server \<Rightarrow> string \<Rightarrow> (tester, http_response) comp" where
  "client_get srv u = client_request srv GET u None"

definition client_post :: "server \<Rightarrow> string \<Rightarrow> json \<Rightarrow> (tester, http_response) comp" where
  "client_post srv u b = client_request srv POST u (Some b)"

definition client_put :: "server \<Rightarrow> string \<Rightarrow> json \<Rightarrow> (tester, http_response) comp" where
  "client_put srv u b = client_request srv PUT u (Some b)"

definition client_delete :: "server \<Rightarrow> string \<Rightarrow> (tester, http_response) comp" where
  "client_delete srv u = client_request srv DELETE u None"

section \<open>The probes of \<open>BackendApiTester\<close>\<close>

text \<open>The objects the probes return. A field of type \<open>option\<close> is an optional
  property, \<open>None\<close> when the property is absent or \<open>undefined\<close>. Console output of
  the probes is not modelled.\<close>

record outcome =
  success :: bool

record message_outcome = outcome +
  error :: "json option"

record auth_outcome = message_outcome +
  token :: "json option"

record 'r results_outcome = outcome +
  results :: 'r

record endpoints_outcome = "(string \<times> bool) list results_outcome" +
  errors :: "string list"

record credentials =
  username :: string
  password :: string

definition credentials_json :: "credentials \<Rightarrow> json" where
  "credentials_json c = JObj [(''username'', JStr (username c)), (''password'', JStr (password c))]"

definition testConnectivity :: "server \<Rightarrow> (tester, bool) comp" where
  "testConnectivity srv =
     try_catch
       (seq (client_get srv ''/health'') (\<lambda>response.
        ret (status response = 200)))
       (\<lambda>error. ret False)"

text \<open>\<open>this.authToken = response.data.access_token\<close>\<close>

definition set_authToken :: "json option \<Rightarrow> (tester, unit) comp" where
  "set_authToken v t = (Inr (), t\<lparr>authToken := v\<rparr>)"

definition testAuthentication :: "server \<Rightarrow> credentials \<Rightarrow> (tester, auth_outcome) comp" where
  "testAuthentication srv creds =
     try_catch
       (seq (client_post srv ''/auth/login'' (credentials_json creds)) (\<lambda>response.
        seq (lift (member (Some (data response)) ''access_token'')) (\<lambda>access_token.
        if truthy access_token
        then seq (set_authToken access_token) (\<lambda>_.
             ret \<lparr>success = True, error = None, token = access_token\<rparr>)
        else ret \<lparr>success = False, error = Some (JStr ''No token received''),
                  token = None\<rparr>)))
       (\<lambda>error.
          ret \<lparr>success = False,
               error = js_or (opt_member (map_option data (response error)) ''message'')
                             (Some (JStr (message error))),
               token = None\<rparr>)"

text \<open>
  The endpoint probes keep two locals, \<open>results\<close> (a \<open>Record<string, boolean>\<close>, an
  association list in insertion order) and \<open>errors\<close>, which the \<open>try\<close> blocks and
  their handlers update; the state of these probes is the tester and the two locals.
\<close>

type_synonym probe_state = "tester \<times> (string \<times> bool) list \<times> string list"

definition with_client :: "(tester, 'a) comp \<Rightarrow> (probe_state, 'a) comp" where
  "with_client m = (\<lambda>(t, rs, es). case m t of (r, t') \<Rightarrow> (r, (t', rs, es)))"

definition set_result :: "string \<Rightarrow> bool \<Rightarrow> (probe_state, unit) comp" where
  "set_result k v = (\<lambda>(t, rs, es). (Inr (), (t, assign k v rs, es)))"

definition push_error :: "string \<Rightarrow> (probe_state, unit) comp" where
  "push_error m = (\<lambda>(t, rs, es). (Inr (), (t, rs, es @ [m])))"

text \<open>The \<open>return\<close> statement the three endpoint probes share:
  \<open>{ success: Object.values(results).every(Boolean), results, errors }\<close>.\<close>

definition return_results :: "(probe_state, endpoints_outcome) comp" where
  "return_results = (\<lambda>(t, rs, es).
     (Inr \<lparr>success = list_all (\<lambda>b. b) (map snd rs), results = rs, errors = es\<rparr>,
      (t, rs, es)))"

text \<open>Running a probe body with fresh locals \<open>results = {}\<close>, \<open>errors = []\<close>.\<close>

definition with_locals :: "(probe_state, 'a) comp \<Rightarrow> (tester, 'a) comp" where
  "with_locals m t = (case m (t, [], []) of (r, (t', rs, es)) \<Rightarrow> (r, t'))"

definition createData :: json where
  "createData = JObj
     [(''name'', JStr ''test-app''),
      (''description'', JStr ''Test application for integration testing''),
      (''repository'', JObj
         [(''url'', JStr ''https://github.com/test/test-app''),
          (''branch'', JStr ''main''),
          (''provider'', JStr ''github'')])]"

definition updateData :: json where
  "updateData = JObj [(''description'', JStr ''Updated description'')]"

text \<open>
  Every sub-probe of the endpoint probes is the same statement, with its own request,
  result key, expected status and error label:
  \<^verbatim>\<open>try { const r = await request; results.key = r.status === expected; }\<close>
  \<^verbatim>\<open>catch (error) { results.key = false; errors.push(`label${error.message}`); }\<close>
\<close>

definition attempt ::
  "(tester, http_response) comp \<Rightarrow> string \<Rightarrow> nat \<Rightarrow> string \<Rightarrow> (probe_state, unit) comp" where
  "attempt request key expected label =
     try_catch
       (seq (with_client request) (\<lambda>r.
        set_result key (status r = expected)))
       (\<lambda>error.
        seq (set_result key False) (\<lambda>_.
        push_error (label @ message error)))"

text \<open>The second \<open>try\<close> statement of \<open>testApplicationEndpoints\<close>: the POST that
  creates an application and, inside the same \<open>try\<close>, the GET, PUT and DELETE on the id
  that came back.\<close>

definition create_block :: "server \<Rightarrow> (probe_state, unit) comp" where
  "create_block srv =
     try_catch
       (seq (with_client (client_post srv ''/api/v1/applications'' createData))
          (\<lambda>createResponse.
        seq (set_result ''createApplication'' (status createResponse = 201)) (\<lambda>_.
        seq (lift (member (Some (data createResponse)) ''data'')) (\<lambda>d.
        if truthy (opt_member d ''id'')
        then (let appId = the (opt_member d ''id'') in
          seq (attempt (client_get srv (''/api/v1/applications/'' @ js_string appId))
                 ''getApplication'' 200 ''Get application failed: '') (\<lambda>_.
          seq (attempt (client_put srv (''/api/v1/applications/'' @ js_string appId)
                          updateData)
                 ''updateApplication'' 200 ''Update application failed: '') (\<lambda>_.
          attempt (client_delete srv (''/api/v1/applications/'' @ js_string appId))
                 ''deleteApplication'' 200 ''Delete application failed: '')))
        else ret ()))))
       (\<lambda>error.
        seq (set_result ''createApplication'' False) (\<lambda>_.
        push_error (''Create application failed: '' @ message error)))"

definition testApplicationEndpoints :: "server \<Rightarrow> (tester, endpoints_outcome) comp" where
  "testApplicationEndpoints srv = with_locals
     (seq (attempt (client_get srv ''/api/v1/applications'')
             ''listApplications'' 200 ''List applications failed: '') (\<lambda>_.
      seq (create_block srv) (\<lambda>_.
      return_results)))"

definition testDeploymentEndpoints :: "server \<Rightarrow> (tester, endpoints_outcome) comp" where
  "testDeploymentEndpoints srv = with_locals
     (seq (attempt (client_get srv ''/api/v1/deployments'')
             ''listDeployments'' 200 ''List deployments failed: '') (\<lambda>_.
      return_results))"

definition testAIEndpoints :: "server \<Rightarrow> (tester, endpoints_outcome) comp" where
  "testAIEndpoints srv = with_locals
     (seq (attempt (client_get srv ''/api/v1/ai/insights'')
             ''getInsights'' 200 ''Get AI insights failed: '') (\<lambda>_.
      seq (attempt (client_get srv ''/api/v1/ai/recommendations'')
             ''getRecommendations'' 200 ''Get AI recommendations failed: '') (\<lambda>_.
      return_results)))"

text \<open>The GraphQL query text (its line breaks and indentation are left out).\<close>

definition query :: string where
  "query = ''query { applications { id name status } }''"

text \<open>Both properties of the returned object read \<open>response.data.errors\<close>, and the
  second one is evaluated whatever the status is; the read is done once here.\<close>

definition testGraphQLEndpoint :: "server \<Rightarrow> (tester, message_outcome) comp" where
  "testGraphQLEndpoint srv =
     try_catch
       (seq (client_post srv ''/graphql'' (JObj [(''query'', JStr query)])) (\<lambda>response.
        seq (lift (member (Some (data response)) ''errors'')) (\<lambda>errs.
        ret \<lparr>success = (status response = 200 \<and> \<not> truthy errs),
             error = opt_member (opt_index0 errs) ''message''\<rparr>)))
       (\<lambda>error. ret \<lparr>success = False, error = Some (JStr (message error))\<rparr>)"

section \<open>\<open>runFullIntegrationTest\<close>\<close>

text \<open>The \<open>results\<close> object of a full run, a \<open>Record<string, any>\<close> with one key per
  probe category; a category is \<open>None\<close> while its key has not been assigned. The
  summary strings are written without their leading emoji.\<close>

record integration_results =
  connectivity :: "bool option"
  authentication :: "auth_outcome option"
  applications :: "endpoints_outcome option"
  deployments :: "endpoints_outcome option"
  ai :: "endpoints_outcome option"
  graphql :: "message_outcome option"

record integration_outcome = "integration_results results_outcome" +
  summary :: string

definition no_results :: integration_results where
  "no_results = \<lparr>connectivity = None, authentication = None, applications = None,
                  deployments = None, ai = None, graphql = None\<rparr>"

definition runFullIntegrationTest :: "server \<Rightarrow> (tester, integration_outcome) comp" where
  "runFullIntegrationTest srv =
     seq (testConnectivity srv) (\<lambda>c.
     let results1 = no_results\<lparr>connectivity := Some c\<rparr> in
     if \<not> c
     then ret \<lparr>success = False, results = results1,
               summary = ''Backend is not accessible. Please ensure ultimate-paas-base is running.''\<rparr>
     else
     seq (testAuthentication srv \<lparr>username = ''admin'', password = ''admin123''\<rparr>) (\<lambda>a.
     seq (testApplicationEndpoints srv) (\<lambda>apps.
     seq (testDeploymentEndpoints srv) (\<lambda>deps.
     seq (testAIEndpoints srv) (\<lambda>ais.
     seq (testGraphQLEndpoint srv) (\<lambda>g.
     let results6 = results1\<lparr>authentication := Some a, applications := Some apps,
                             deployments := Some deps, ai := Some ais, graphql := Some g\<rparr>;
         overallSuccess = (c \<and> success a \<and> success apps \<and> success deps);
         summary = (if overallSuccess
                    then ''All integration tests passed! Frontend is ready to connect to backend.''
                    else ''Some integration tests failed. Please check the backend configuration.'')
     in ret \<lparr>success = overallSuccess, results = results6, summary = summary\<rparr>))))))"

text \<open>The condition of the \<open>if\<close> that guards the three sub-probes,
  \<open>createResponse.data.data?.id\<close>, as a function of the answer to the create request:
  \<open>undefined\<close> when the request threw or reading \<open>data.data\<close> threw.\<close>

definition created_id :: "js_error + http_response \<Rightarrow> json option" where
  "created_id answer =
     (case answer of
        Inl e \<Rightarrow> None
      | Inr createResponse \<Rightarrow>
          (case member (Some (data createResponse)) ''data'' of
             Inl e \<Rightarrow> None
           | Inr d \<Rightarrow> opt_member d ''id''))"

section \<open>\<open>JSON.stringify(value, null, 2)\<close>\<close>

definition newline :: string where
  "newline = [CHR 0x0A]"

definition spaces :: "nat \<Rightarrow> string" where
  "spaces n = replicate n (CHR '' '')"

definition hex_digit :: "nat \<Rightarrow> char" where
  "hex_digit n = ''0123456789abcdef'' ! n"

text \<open>The escape of one character inside a string literal: the double quote (0x22) and
  the backslash (0x5C) get a backslash, the control characters their short escape or
  \<open>\u00XX\<close>, every other character stands for itself.\<close>

definition escape_char :: "char \<Rightarrow> string" where
  "escape_char c =
     (let n = (of_char c :: nat) in
      if n = 0x22 then [CHR 0x5C, CHR 0x22]
      else if n = 0x5C then [CHR 0x5C, CHR 0x5C]
      else if n = 8 then [CHR 0x5C, CHR ''b'']
      else if n = 12 then [CHR 0x5C, CHR ''f'']
      else if n = 10 then [CHR 0x5C, CHR ''n'']
      else if n = 13 then [CHR 0x5C, CHR ''r'']
      else if n = 9 then [CHR 0x5C, CHR ''t'']
      else if n < 32 then
        [CHR 0x5C, CHR ''u'', CHR ''0'', CHR ''0'', hex_digit (n div 16), hex_digit (n mod 16)]
      else [c])"

definition quote :: "string \<Rightarrow> string" where
  "quote s = CHR 0x22 # concat (map escape_char s) @ [CHR 0x22]"

text \<open>\<open>stringify_at i v\<close> is the text of \<open>v\<close> when the line it starts on is indented
  by \<open>i\<close> spaces; the elements of an array and the members of an object go on lines of
  their own, indented by two more.\<close>

fun stringify_at :: "nat \<Rightarrow> json \<Rightarrow> string"
  and stringify_elements :: "nat \<Rightarrow> json list \<Rightarrow> string"
  and stringify_members :: "nat \<Rightarrow> (string \<times> json) list \<Rightarrow> string" where
  "stringify_at i JNull = ''null''"
| "stringify_at i (JBool b) = (if b then ''true'' else ''false'')"
| "stringify_at i (JNum n) = dec_int n"
| "stringify_at i (JStr s) = quote s"
| "stringify_at i (JArr xs) =
     (if xs = [] then ''[]''
      else ''['' @ newline @ stringify_elements (i + 2) xs @ newline @ spaces i @ '']'')"
| "stringify_at i (JObj kvs) =
     (if kvs = [] then ''{}''
      else ''{'' @ newline @ stringify_members (i + 2) kvs @ newline @ spaces i @ ''}'')"
| "stringify_elements i [] = []"
| "stringify_elements i [x] = spaces i @ stringify_at i x"
| "stringify_elements i (x # y # xs) =
     spaces i @ stringify_at i x @ '','' @ newline @ stringify_elements i (y # xs)"
| "stringify_members i [] = []"
| "stringify_members i [(k, v)] = spaces i @ quote k @ '': '' @ stringify_at i v"
| "stringify_members i ((k, v) # m # kvs) =
     spaces i @ quote k @ '': '' @ stringify_at i v @ '','' @ newline @
     stringify_members i (m # kvs)"

definition stringify :: "json \<Rightarrow> string" where
  "stringify v = stringify_at 0 v"

section \<open>Parsing a report back\<close>

text \<open>
  The reader of the report file: a parser for JSON text, with numbers restricted to
  integers and \<open>\uXXXX\<close> escapes to code units below 256 (what a character of this
  model holds). \<open>parse_value\<close>, \<open>parse_elements\<close> and \<open>parse_members\<close> take the text
  and return the value read and the rest of the text; their recursion is bounded by
  fuel, and \<open>parse\<close> gives them one more than the length of the text.
\<close>

definition is_ws :: "char \<Rightarrow> bool" where
  "is_ws c = ((of_char c :: nat) \<in> {32, 10, 13, 9})"

definition skip_ws :: "string \<Rightarrow> string" where
  "skip_ws s = dropWhile is_ws s"

definition is_digit :: "char \<Rightarrow> bool" where
  "is_digit c = (48 \<le> (of_char c :: nat) \<and> (of_char c :: nat) \<le> 57)"

definition hex_value :: "char \<Rightarrow> nat option" where
  "hex_value c =
     (let n = (of_char c :: nat) in
      if 48 \<le> n \<and> n \<le> 57 then Some (n - 48)
      else if 97 \<le> n \<and> n \<le> 102 then Some (n - 87)
      else if 65 \<le> n \<and> n \<le> 70 then Some (n - 55)
      else None)"

definition hex4 :: "char \<Rightarrow> char \<Rightarrow> char \<Rightarrow> char \<Rightarrow> nat option" where
  "hex4 a b c d =
     (case (hex_value a, hex_value b, hex_value c, hex_value d) of
        (Some w, Some x, Some y, Some z) \<Rightarrow> Some (((w * 16 + x) * 16 + y) * 16 + z)
      | _ \<Rightarrow> None)"

definition unescape :: "char \<Rightarrow> char option" where
  "unescape e =
     (let n = (of_char e :: nat) in
      if n = 0x22 then Some (CHR 0x22)
      else if n = 0x5C then Some (CHR 0x5C)
      else if n = 0x2F then Some (CHR 0x2F)
      else if n = 98 then Some (CHR 0x08)
      else if n = 102 then Some (CHR 0x0C)
      else if n = 110 then Some (CHR 0x0A)
      else if n = 114 then Some (CHR 0x0D)
      else if n = 116 then Some (CHR 0x09)
      else None)"

definition cons_result :: "'a \<Rightarrow> ('a list \<times> 'b) option \<Rightarrow> ('a list \<times> 'b) option" where
  "cons_result x r = (case r of None \<Rightarrow> None | Some (xs, rest) \<Rightarrow> Some (x # xs, rest))"

fun parse_chars :: "string \<Rightarrow> (string \<times> string) option" where
  "parse_chars [] = None"
| "parse_chars (c # cs) =
     (if (of_char c :: nat) = 0x22 then Some ([], cs)
      else if (of_char c :: nat) = 0x5C then
        (case cs of
           [] \<Rightarrow> None
         | e # cs' \<Rightarrow>
             if (of_char e :: nat) = 117 then
               (case cs' of
                  h1 # h2 # h3 # h4 # cs'' \<Rightarrow>
                    (case hex4 h1 h2 h3 h4 of
                       None \<Rightarrow> None
                     | Some n \<Rightarrow>
                         if n < 256 then cons_result (char_of n) (parse_chars cs'') else None)
                | _ \<Rightarrow> None)
             else
               (case unescape e of
                  None \<Rightarrow> None
                | Some ch \<Rightarrow> cons_result ch (parse_chars cs')))
      else if (of_char c :: nat) < 32 then None
      else cons_result c (parse_chars cs))"

fun parse_digits :: "nat \<Rightarrow> string \<Rightarrow> nat \<times> string" where
  "parse_digits acc [] = (acc, [])"
| "parse_digits acc (c # cs) =
     (if is_digit c then parse_digits (acc * 10 + (of_char c - 48)) cs else (acc, c # cs))"

definition parse_nat :: "string \<Rightarrow> (nat \<times> string) option" where
  "parse_nat s =
     (case s of
        [] \<Rightarrow> None
      | c # cs \<Rightarrow>
          if \<not> is_digit c then None
          else if (of_char c :: nat) = 48 \<and> cs \<noteq> [] \<and> is_digit (hd cs) then None
          else Some (parse_digits 0 s))"

definition literal :: "string \<Rightarrow> json \<Rightarrow> string \<Rightarrow> (json \<times> string) option" where
  "literal word v s =
     (if take (length word) s = word then Some (v, drop (length word) s) else None)"

fun parse_value :: "nat \<Rightarrow> string \<Rightarrow> (json \<times> string) option"
  and parse_elements :: "nat \<Rightarrow> string \<Rightarrow> (json list \<times> string) option"
  and parse_members :: "nat \<Rightarrow> string \<Rightarrow> ((string \<times> json) list \<times> string) option" where
  "parse_value 0 s = None"
| "parse_value (Suc fuel) s =
     (case skip_ws s of
        [] \<Rightarrow> None
      | c # cs \<Rightarrow>
          if c = CHR ''n'' then literal ''null'' JNull (c # cs)
          else if c = CHR ''t'' then literal ''true'' (JBool True) (c # cs)
          else if c = CHR ''f'' then literal ''false'' (JBool False) (c # cs)
          else if (of_char c :: nat) = 0x22 then
            (case parse_chars cs of None \<Rightarrow> None | Some (str, rest) \<Rightarrow> Some (JStr str, rest))
          else if c = CHR ''['' then
            (case skip_ws cs of
               [] \<Rightarrow> None
             | d # rest \<Rightarrow>
                 if d = CHR '']'' then Some (JArr [], rest)
                 else (case parse_elements fuel cs of
                         None \<Rightarrow> None
                       | Some (xs, rest') \<Rightarrow> Some (JArr xs, rest')))
          else if c = CHR ''{'' then
            (case skip_ws cs of
               [] \<Rightarrow> None
             | d # rest \<Rightarrow>
                 if d = CHR ''}'' then Some (JObj [], rest)
                 else (case parse_members fuel cs of
                         None \<Rightarrow> None
                       | Some (kvs, rest') \<Rightarrow> Some (JObj kvs, rest')))
          else if c = CHR ''-'' then
            (case parse_nat cs of None \<Rightarrow> None | Some (n, rest) \<Rightarrow> Some (JNum (- int n), rest))
          else
            (case parse_nat (c # cs) of None \<Rightarrow> None | Some (n, rest) \<Rightarrow> Some (JNum (int n), rest)))"
| "parse_elements 0 s = None"
| "parse_elements (Suc fuel) s =
     (case parse_value fuel s of
        None \<Rightarrow> None
      | Some (x, rest) \<Rightarrow>
          (case skip_ws rest of
             [] \<Rightarrow> None
           | d # rest' \<Rightarrow>
               if d = CHR '','' then cons_result x (parse_elements fuel rest')
               else if d = CHR '']'' then Some ([x], rest')
               else None))"
| "parse_members 0 s = None"
| "parse_members (Suc fuel) s =
     (case skip_ws s of
        [] \<Rightarrow> None
      | q # s1 \<Rightarrow>
          if (of_char q :: nat) \<noteq> 0x22 then None
          else
            (case parse_chars s1 of
               None \<Rightarrow> None
             | Some (k, s2) \<Rightarrow>
                 (case skip_ws s2 of
                    [] \<Rightarrow> None
                  | colon # s3 \<Rightarrow>
                      if colon \<noteq> CHR '':'' then None
                      else
                        (case parse_value fuel s3 of
                           None \<Rightarrow> None
                         | Some (v, s4) \<Rightarrow>
                             (case skip_ws s4 of
                                [] \<Rightarrow> None
                              | d # s5 \<Rightarrow>
                                  if d = CHR '','' then cons_result (k, v) (parse_members fuel s5)
                                  else if d = CHR ''}'' then Some ([(k, v)], s5)
                                  else None)))))"

definition parse :: "string \<Rightarrow> json option" where
  "parse s =
     (case parse_value (Suc (length s)) s of
        None \<Rightarrow> None
      | Some (v, rest) \<Rightarrow> if skip_ws rest = [] then Some v else None)"

text \<open>A text after which a number may end: it does not go on with a digit.\<close>

definition tail_ok :: "string \<Rightarrow> bool" where
  "tail_ok rest = (case rest of [] \<Rightarrow> True | c # cs \<Rightarrow> \<not> is_digit c)"

section \<open>The integration test runner\<close>

text \<open>\<open>new Error(m)\<close>\<close>

definition new_Error :: "string \<Rightarrow> js_error" where
  "new_Error m = \<lparr>message = m, response = None\<rparr>"

text \<open>\<open>s.includes(sub)\<close>\<close>

definition js_includes :: "string \<Rightarrow> string \<Rightarrow> bool" where
  "js_includes s sub = sublist sub s"

subsection \<open>Waiting for a child process to be ready\<close>

text \<open>
  What happens after \<open>spawn\<close>, in the order it happens: a chunk arrives on the child's
  standard output or standard error, the child emits \<open>error\<close>, or the timer set by
  \<open>setTimeout\<close> fires. The list is everything that ever happens. A promise is settled
  by the first \<open>resolve\<close> or \<open>reject\<close> that is called, and stays \<open>Pending\<close> when the
  list ends without one.
\<close>

datatype proc_event = Stdout string | Stderr string | ProcError string | TimerFired

datatype settled = Resolved | Rejected js_error | Pending

text \<open>The handlers of \<open>startBackend\<close>; \<open>output\<close> is the text collected so far.\<close>

fun backend_listen :: "string \<Rightarrow> proc_event list \<Rightarrow> settled" where
  "backend_listen output [] = Pending"
| "backend_listen output (Stdout d # evs) =
     (if js_includes (output @ d) ''Uvicorn running on'' then Resolved
      else backend_listen (output @ d) evs)"
| "backend_listen output (Stderr d # evs) = backend_listen output evs"
| "backend_listen output (ProcError m # evs) =
     Rejected (new_Error (''Failed to start backend: '' @ m))"
| "backend_listen output (TimerFired # evs) =
     (if \<not> js_includes output ''Uvicorn running on''
      then Rejected (new_Error ''Backend failed to start within 30 seconds'')
      else backend_listen output evs)"

text \<open>The handlers of \<open>startFrontend\<close>.\<close>

fun frontend_listen :: "string \<Rightarrow> proc_event list \<Rightarrow> settled" where
  "frontend_listen output [] = Pending"
| "frontend_listen output (Stdout d # evs) =
     (if js_includes (output @ d) ''Ready in'' \<and> js_includes (output @ d) ''3000'' then Resolved
      else frontend_listen (output @ d) evs)"
| "frontend_listen output (Stderr d # evs) = frontend_listen output evs"
| "frontend_listen output (ProcError m # evs) =
     Rejected (new_Error (''Failed to start frontend: '' @ m))"
| "frontend_listen output (TimerFired # evs) =
     (if \<not> js_includes output ''Ready in''
      then Rejected (new_Error ''Frontend failed to start within 60 seconds'')
      else frontend_listen output evs)"

subsection \<open>Polling a URL\<close>

text \<open>
  \<open>axios.get(url, { timeout: 5000 })\<close>: the environment says how long the request
  would take, in milliseconds, and whether it ends in a 2xx response; a request that
  would take longer than the timeout is aborted at the timeout and fails.
\<close>

definition axios_get_within :: "nat \<Rightarrow> nat \<times> bool \<Rightarrow> nat \<times> bool" where
  "axios_get_within tmo answer =
     (case answer of (d, ok) \<Rightarrow> if tmo < d then (tmo, False) else (d, ok))"

datatype waited = Ready | NotReady

text \<open>
  The loop of \<open>waitForUrl\<close>. \<open>now\<close> is the value of \<open>Date.now()\<close> at the loop test,
  \<open>k\<close> counts the requests made so far, and \<open>get k\<close> is what the environment answers
  to request \<open>k\<close>. The result is how the loop ended, the clock at that moment and the
  number of requests made.
\<close>

function waitForUrl_loop ::
  "(nat \<Rightarrow> nat \<times> bool) \<Rightarrow> int \<Rightarrow> int \<Rightarrow> int \<Rightarrow> nat \<Rightarrow> waited \<times> int \<times> nat" where
  "waitForUrl_loop get start timeout now k =
     (if now - start < timeout
      then (case axios_get_within 5000 (get k) of
              (d, ok) \<Rightarrow>
                if ok then (Ready, now + int d, Suc k)
                else waitForUrl_loop get start timeout (now + int d + 1000) (Suc k))
      else (NotReady, now, k))"
  by pat_completeness auto
termination
  by (relation "measure (\<lambda>(get, start, timeout, now, k). nat (timeout - (now - start)))") auto

declare waitForUrl_loop.simps [simp del]

subsection \<open>The runner object and its environment\<close>

type_synonym child = "string \<times> string list"

text \<open>What a run does to the outside world, in order. Of the console output only the
  lines of \<open>generateReport\<close> are recorded, without their emoji.\<close>

datatype event =
    Spawn child
  | Kill child
  | CleanupCalled
  | Exec string
  | Print string
  | WriteFile string string
  | ProcessExit nat

record test_results =
  backend :: json
  frontend :: json
  integration :: json
  e2e :: json

record runner =
  backendProcess :: "child option"
  frontendProcess :: "child option"
  testResults :: test_results
  now :: int
  trace :: "event list"

definition backendUrl :: string where
  "backendUrl = ''http://localhost:8000''"

definition frontendUrl :: string where
  "frontendUrl = ''http://localhost:3000''"

definition new_runner :: "int \<Rightarrow> runner" where
  "new_runner clock =
     \<lparr>backendProcess = None, frontendProcess = None,
      testResults = \<lparr>backend = JObj [], frontend = JObj [], integration = JObj [],
                     e2e = JObj []\<rparr>,
      now = clock, trace = []\<rparr>"

text \<open>
  The environment of a run: which paths exist, how each command run by \<open>exec\<close> ends
  (an error or its standard output), what the two children do after \<open>spawn\<close>, the
  backend as the API tester sees it, how the \<open>k\<close>-th poll of a URL ends, and whether
  writing a file fails.
\<close>

record environment =
  existsSync :: "string \<Rightarrow> bool"
  exec :: "string \<Rightarrow> js_error + string"
  backendOutput :: "proc_event list"
  frontendOutput :: "proc_event list"
  backendApi :: server
  httpGet :: "string \<Rightarrow> nat \<Rightarrow> nat \<times> bool"
  writeFileSync :: "string \<Rightarrow> js_error option"

text \<open>
  How a statement of the runner completes: normally, by throwing, by ending the Node
  process (\<open>process.exit\<close>), or never, when it awaits a promise that stays pending.
  After \<open>Exited\<close> and \<open>Hung\<close> nothing more of the program runs.
\<close>

datatype 'a completion = Normal 'a | Thrown js_error | Exited nat | Hung

type_synonym 'a action = "runner \<Rightarrow> 'a completion \<times> runner"

definition and_then :: "'a action \<Rightarrow> ('a \<Rightarrow> 'b action) \<Rightarrow> 'b action" where
  "and_then m f r =
     (case m r of
        (Normal x, r') \<Rightarrow> f x r'
      | (Thrown e, r') \<Rightarrow> (Thrown e, r')
      | (Exited n, r') \<Rightarrow> (Exited n, r')
      | (Hung, r') \<Rightarrow> (Hung, r'))"

text \<open>\<open>try { blk } catch (error) { handler }\<close>\<close>

definition catching :: "'a action \<Rightarrow> (js_error \<Rightarrow> 'a action) \<Rightarrow> 'a action" where
  "catching blk handler r =
     (case blk r of
        (Thrown e, r') \<Rightarrow> handler e r'
      | (c, r') \<Rightarrow> (c, r'))"

text \<open>\<open>try { blk } finally { fin }\<close>: the \<open>finally\<close> block runs after \<open>blk\<close> has
  completed normally or thrown, and its own abrupt completion replaces that of \<open>blk\<close>.\<close>

definition and_finally :: "'a action \<Rightarrow> unit action \<Rightarrow> 'a action" where
  "and_finally blk fin r =
     (case blk r of
        (Exited n, r') \<Rightarrow> (Exited n, r')
      | (Hung, r') \<Rightarrow> (Hung, r')
      | (c, r') \<Rightarrow>
          (case fin r' of
             (Normal u, r'') \<Rightarrow> (c, r'')
           | (Thrown e, r'') \<Rightarrow> (Thrown e, r'')
           | (Exited n, r'') \<Rightarrow> (Exited n, r'')
           | (Hung, r'') \<Rightarrow> (Hung, r'')))"

definition emit :: "event \<Rightarrow> unit action" where
  "emit ev r = (Normal (), r\<lparr>trace := trace r @ [ev]\<rparr>)"

definition throw_error :: "js_error \<Rightarrow> 'a action" where
  "throw_error e r = (Thrown e, r)"

definition skip :: "unit action" where
  "skip r = (Normal (), r)"

text \<open>\<open>process.exit(code)\<close> ends the process at once.\<close>

definition process_exit :: "nat \<Rightarrow> 'a action" where
  "process_exit code r = (Exited code, r\<lparr>trace := trace r @ [ProcessExit code]\<rparr>)"

text \<open>\<open>execCommand\<close>: the promise is rejected with the error of \<open>exec\<close> and resolved
  with the standard output otherwise. Commands are taken to end.\<close>

definition execCommand :: "environment \<Rightarrow> string \<Rightarrow> string action" where
  "execCommand env command =
     and_then (emit (Exec command)) (\<lambda>_ r.
       case exec env command of
         Inl err \<Rightarrow> (Thrown err, r)
       | Inr stdout \<Rightarrow> (Normal stdout, r))"

text \<open>An expression that may throw, evaluated without touching the runner.\<close>

definition eval :: "js_error + 'a \<Rightarrow> 'a action" where
  "eval v r = (case v of Inl e \<Rightarrow> (Thrown e, r) | Inr x \<Rightarrow> (Normal x, r))"

text \<open>Awaiting a promise.\<close>

definition await :: "settled \<Rightarrow> unit action" where
  "await p r =
     (case p of Resolved \<Rightarrow> (Normal (), r) | Rejected e \<Rightarrow> (Thrown e, r) | Pending \<Rightarrow> (Hung, r))"

subsection \<open>The objects stored in \<open>testResults\<close>\<close>

text \<open>The probe outcomes as plain objects, keys in the order the source writes them;
  a property that is absent or \<open>undefined\<close> is left out, as \<open>JSON.stringify\<close> does.\<close>

definition optional :: "string \<Rightarrow> json option \<Rightarrow> (string \<times> json) list" where
  "optional k v = (case v of None \<Rightarrow> [] | Some x \<Rightarrow> [(k, x)])"

definition json_of_auth :: "auth_outcome \<Rightarrow> json" where
  "json_of_auth a =
     JObj ([(''success'', JBool (success a))] @ optional ''token'' (token a) @
           optional ''error'' (error a))"

definition json_of_message :: "message_outcome \<Rightarrow> json" where
  "json_of_message g =
     JObj ([(''success'', JBool (success g))] @ optional ''error'' (error g))"

definition json_of_endpoints :: "endpoints_outcome \<Rightarrow> json" where
  "json_of_endpoints p =
     JObj [(''success'', JBool (success p)),
           (''results'', JObj (map (\<lambda>(k, b). (k, JBool b)) (results p))),
           (''errors'', JArr (map JStr (errors p)))]"

definition json_of_results :: "integration_results \<Rightarrow> json" where
  "json_of_results rs =
     JObj (optional ''connectivity'' (map_option JBool (connectivity rs)) @
           optional ''authentication'' (map_option json_of_auth (authentication rs)) @
           optional ''applications'' (map_option json_of_endpoints (applications rs)) @
           optional ''deployments'' (map_option json_of_endpoints (deployments rs)) @
           optional ''ai'' (map_option json_of_endpoints (ai rs)) @
           optional ''graphql'' (map_option json_of_message (graphql rs)))"

definition json_of_integration :: "integration_outcome \<Rightarrow> json" where
  "json_of_integration out =
     JObj [(''success'', JBool (success out)),
           (''results'', json_of_results (results out)),
           (''summary'', JStr (summary out))]"

definition json_of_test_results :: "test_results \<Rightarrow> json" where
  "json_of_test_results tr =
     JObj [(''backend'', backend tr), (''frontend'', frontend tr),
           (''integration'', integration tr), (''e2e'', e2e tr)]"

text \<open>\<open>{ success: false, error: error.message }\<close>\<close>

definition failed_with :: "js_error \<Rightarrow> json" where
  "failed_with err = JObj [(''success'', JBool False), (''error'', JStr (message err))]"

text \<open>\<open>obj.success = true\<close> on an object.\<close>

fun set_success :: "json \<Rightarrow> json" where
  "set_success (JObj kvs) = JObj (assign ''success'' (JBool True) kvs)"
| "set_success v = v"

subsection \<open>The steps of a run\<close>

definition backendPath :: string where
  "backendPath = ''../ultimate-paas-base''"

definition checkPrerequisites :: "environment \<Rightarrow> unit action" where
  "checkPrerequisites env =
     (if \<not> existsSync env backendPath
      then throw_error (new_Error
        ''Backend directory not found. Please ensure ultimate-paas-base exists in parent directory.'')
      else if \<not> existsSync env (backendPath @ ''/requirements.txt'')
      then throw_error (new_Error
        ''Backend requirements.txt not found. Please ensure backend is properly set up.'')
      else if \<not> existsSync env ''node_modules''
      then and_then (execCommand env ''npm install'') (\<lambda>_. skip)
      else skip)"

definition backend_child :: child where
  "backend_child = (''python'', [''src/main.py''])"

definition frontend_child :: child where
  "frontend_child = (''npm'', [''run'', ''dev''])"

definition startBackend :: "environment \<Rightarrow> unit action" where
  "startBackend env =
     and_then (\<lambda>r. (Normal (), r\<lparr>backendProcess := Some backend_child\<rparr>)) (\<lambda>_.
     and_then (emit (Spawn backend_child)) (\<lambda>_.
     await (backend_listen [] (backendOutput env))))"

definition startFrontend :: "environment \<Rightarrow> unit action" where
  "startFrontend env =
     and_then (\<lambda>r. (Normal (), r\<lparr>frontendProcess := Some frontend_child\<rparr>)) (\<lambda>_.
     and_then (emit (Spawn frontend_child)) (\<lambda>_.
     await (frontend_listen [] (frontendOutput env))))"

text \<open>The three setters of \<open>testResults\<close>.\<close>

definition set_integration :: "json \<Rightarrow> unit action" where
  "set_integration v r = (Normal (), r\<lparr>testResults := (testResults r)\<lparr>integration := v\<rparr>\<rparr>)"

definition set_frontend :: "json \<Rightarrow> unit action" where
  "set_frontend v r = (Normal (), r\<lparr>testResults := (testResults r)\<lparr>frontend := v\<rparr>\<rparr>)"

definition set_e2e :: "json \<Rightarrow> unit action" where
  "set_e2e v r = (Normal (), r\<lparr>testResults := (testResults r)\<lparr>e2e := v\<rparr>\<rparr>)"

definition runApiTests :: "environment \<Rightarrow> unit action" where
  "runApiTests env =
     catching
       (and_then (eval (fst (runFullIntegrationTest (backendApi env) new_tester))) (\<lambda>out.
        set_integration (json_of_integration out)))
       (\<lambda>error. set_integration (failed_with error))"

definition runFrontendTests :: "environment \<Rightarrow> unit action" where
  "runFrontendTests env =
     catching
       (and_then (execCommand env ''npm run test -- --watchAll=false'') (\<lambda>_ r.
        set_frontend (set_success (frontend (testResults r))) r))
       (\<lambda>error. set_frontend (failed_with error))"

definition waitForUrl :: "environment \<Rightarrow> string \<Rightarrow> int \<Rightarrow> unit action" where
  "waitForUrl env u timeout r =
     (case waitForUrl_loop (httpGet env u) (now r) timeout (now r) 0 of
        (Ready, t, k) \<Rightarrow> (Normal (), r\<lparr>now := t\<rparr>)
      | (NotReady, t, k) \<Rightarrow>
          (Thrown (new_Error (''Service at '' @ u @ '' not ready within '' @ dec_int timeout @ ''ms'')),
           r\<lparr>now := t\<rparr>))"

definition waitForServices :: "environment \<Rightarrow> unit action" where
  "waitForServices env =
     and_then (waitForUrl env (backendUrl @ ''/health'') 30000) (\<lambda>_.
     waitForUrl env frontendUrl 30000)"

definition runE2ETests :: "environment \<Rightarrow> unit action" where
  "runE2ETests env =
     catching
       (and_then (waitForServices env) (\<lambda>_.
        and_then (execCommand env ''npx playwright test'') (\<lambda>_ r.
        set_e2e (set_success (e2e (testResults r))) r)))
       (\<lambda>error. set_e2e (failed_with error))"

text \<open>The \<open>forEach\<close> of \<open>generateReport\<close>: one status line per phase, and the error
  of a failed phase when it has one.\<close>

fun print_results :: "(string \<times> json) list \<Rightarrow> unit action" where
  "print_results [] = skip"
| "print_results ((name, result) # rest) =
     and_then (eval (member (Some result) ''success'')) (\<lambda>s.
     and_then (emit (Print (name @ '': '' @ (if truthy s then ''PASS'' else ''FAIL'')))) (\<lambda>_.
     and_then (if \<not> truthy s
               then and_then (eval (member (Some result) ''error'')) (\<lambda>e.
                    if truthy e then emit (Print (''  Error: '' @ js_string (the e)))
                    else skip)
               else skip) (\<lambda>_.
     print_results rest)))"

text \<open>\<open>results.every(r => r.result.success)\<close>\<close>

fun every_success :: "(string \<times> json) list \<Rightarrow> bool action" where
  "every_success [] = (\<lambda>r. (Normal True, r))"
| "every_success ((name, result) # rest) =
     and_then (eval (member (Some result) ''success'')) (\<lambda>s.
     if truthy s then every_success rest else (\<lambda>r. (Normal False, r)))"

definition reportPath :: string where
  "reportPath = ''integration-test-report.json''"

definition generateReport :: "environment \<Rightarrow> unit action" where
  "generateReport env r =
     (let results = [(''API Integration'', integration (testResults r)),
                     (''Frontend Tests'', frontend (testResults r)),
                     (''E2E Tests'', e2e (testResults r))]
      in and_then (emit (Print ''Test Results Summary'')) (\<lambda>_.
         and_then (print_results results) (\<lambda>_.
         and_then (every_success results) (\<lambda>overallSuccess.
         and_then (if overallSuccess
                   then and_then (emit (Print ''All integration tests passed!'')) (\<lambda>_.
                        emit (Print ''Frontend is ready for production deployment.''))
                   else and_then
                          (emit (Print ''Some tests failed. Please review the results above.''))
                          (\<lambda>_.
                        emit (Print ''Fix the issues before deploying to production.''))) (\<lambda>_.
         and_then (case writeFileSync env reportPath of
                     Some err \<Rightarrow> throw_error err
                   | None \<Rightarrow>
                       emit (WriteFile reportPath
                               (stringify (json_of_test_results (testResults r))))) (\<lambda>_.
         emit (Print (''Detailed report saved to: '' @ reportPath))))))) r)"

definition cleanup :: "unit action" where
  "cleanup =
     and_then (emit CleanupCalled) (\<lambda>_.
     and_then (\<lambda>r. (case backendProcess r of Some p \<Rightarrow> emit (Kill p) r | None \<Rightarrow> skip r)) (\<lambda>_.
     (\<lambda>r. (case frontendProcess r of Some p \<Rightarrow> emit (Kill p) r | None \<Rightarrow> skip r))))"

definition run :: "environment \<Rightarrow> unit action" where
  "run env =
     and_finally
       (catching
          (and_then (checkPrerequisites env) (\<lambda>_.
           and_then (startBackend env) (\<lambda>_.
           and_then (startFrontend env) (\<lambda>_.
           and_then (runApiTests env) (\<lambda>_.
           and_then (runFrontendTests env) (\<lambda>_.
           and_then (runE2ETests env) (\<lambda>_.
           generateReport env)))))))
          (\<lambda>error. process_exit 1))
       cleanup"

section \<open>Notions used to state the properties\<close>

subsection \<open>Using a tester\<close>

text \<open>The public methods of \<open>BackendApiTester\<close>, what a call returns, and a client
  program as a list of calls made one after the other on the same object.\<close>

datatype call =
    TestConnectivity
  | TestAuthentication credentials
  | TestApplicationEndpoints
  | TestDeploymentEndpoints
  | TestAIEndpoints
  | TestGraphQLEndpoint
  | RunFullIntegrationTest

datatype reply =
    Connectivity bool
  | Authentication auth_outcome
  | Endpoints endpoints_outcome
  | GraphQL message_outcome
  | Full integration_outcome

fun perform :: "server \<Rightarrow> call \<Rightarrow> (tester, reply) comp" where
  "perform srv TestConnectivity = seq (testConnectivity srv) (\<lambda>x. ret (Connectivity x))"
| "perform srv (TestAuthentication c) =
     seq (testAuthentication srv c) (\<lambda>x. ret (Authentication x))"
| "perform srv TestApplicationEndpoints =
     seq (testApplicationEndpoints srv) (\<lambda>x. ret (Endpoints x))"
| "perform srv TestDeploymentEndpoints =
     seq (testDeploymentEndpoints srv) (\<lambda>x. ret (Endpoints x))"
| "perform srv TestAIEndpoints = seq (testAIEndpoints srv) (\<lambda>x. ret (Endpoints x))"
| "perform srv TestGraphQLEndpoint = seq (testGraphQLEndpoint srv) (\<lambda>x. ret (GraphQL x))"
| "perform srv RunFullIntegrationTest = seq (runFullIntegrationTest srv) (\<lambda>x. ret (Full x))"

text \<open>The calls are made whatever the earlier ones returned or threw.\<close>

fun perform_all :: "server \<Rightarrow> call list \<Rightarrow> tester \<Rightarrow> (js_error + reply) list \<times> tester" where
  "perform_all srv [] t = ([], t)"
| "perform_all srv (c # cs) t =
     (case perform srv c t of
        (r, t') \<Rightarrow> (case perform_all srv cs t' of (rs, t'') \<Rightarrow> (r # rs, t'')))"

text \<open>A call in which \<open>testAuthentication\<close> ran and reported success.\<close>

fun login_succeeded :: "js_error + reply \<Rightarrow> bool" where
  "login_succeeded (Inr (Authentication a)) = success a"
| "login_succeeded (Inr (Full out)) =
     (case authentication (results out) of Some a \<Rightarrow> success a | None \<Rightarrow> False)"
| "login_succeeded r = False"

text \<open>The exchanges a computation added to the log, and the verb and URL of each.\<close>

definition new_exchanges ::
  "tester \<Rightarrow> tester \<Rightarrow> (http_request \<times> (js_error + http_response)) list" where
  "new_exchanges t t' = drop (length (exchanges t)) (exchanges t')"

definition requested :: "tester \<Rightarrow> tester \<Rightarrow> (http_method \<times> string) list" where
  "requested t t' = map (\<lambda>x. (verb (fst x), url (fst x))) (new_exchanges t t')"

text \<open>Whether an answer is a response with the expected status, and the entry of
  \<open>errors\<close> that a thrown answer leaves.\<close>

definition passed :: "js_error + http_response \<Rightarrow> nat \<Rightarrow> bool" where
  "passed a n = (case a of Inl e \<Rightarrow> False | Inr r \<Rightarrow> status r = n)"

definition complaint :: "string \<Rightarrow> js_error + http_response \<Rightarrow> string list" where
  "complaint l a = (case a of Inl e \<Rightarrow> [l @ message e] | Inr r \<Rightarrow> [])"

text \<open>The events a run added to the trace.\<close>

definition new_events :: "runner \<Rightarrow> runner \<Rightarrow> event list" where
  "new_events r r' = drop (length (trace r)) (trace r')"

subsection \<open>Backends and environments to run the code on\<close>

definition refused :: js_error where
  "refused = \<lparr>message = ''connect ECONNREFUSED 127.0.0.1:8000'', response = None\<rparr>"

definition status_error :: "nat \<Rightarrow> json \<Rightarrow> js_error" where
  "status_error n d =
     \<lparr>message = ''Request failed with status code '' @ dec_nat n,
      response = Some \<lparr>status = n, data = d\<rparr>\<rparr>"

text \<open>A backend that is not running: every request is refused.\<close>

definition down_backend :: server where
  "down_backend history req = Inl refused"

text \<open>A backend where everything works except the analytics routes (status 500) and
  GraphQL, which answers 200 with an \<open>errors\<close> array.\<close>

definition analytics_broken_backend :: server where
  "analytics_broken_backend history req =
     (if url req = ''/health'' then Inr \<lparr>status = 200, data = JObj [(''status'', JStr ''ok'')]\<rparr>
      else if url req = ''/auth/login''
        then Inr \<lparr>status = 200, data = JObj [(''access_token'', JStr ''t0k3n'')]\<rparr>
      else if url req = ''/api/v1/applications'' \<and> verb req = POST
        then Inr \<lparr>status = 201, data = JObj [(''data'', JObj [(''id'', JNum 7)])]\<rparr>
      else if url req = ''/api/v1/applications''
        then Inr \<lparr>status = 200, data = JObj [(''data'', JArr [])]\<rparr>
      else if url req = ''/api/v1/applications/7''
        then Inr \<lparr>status = 200, data = JObj [(''data'', JObj [(''id'', JNum 7)])]\<rparr>
      else if url req = ''/api/v1/deployments''
        then Inr \<lparr>status = 200, data = JObj [(''data'', JArr [])]\<rparr>
      else if url req = ''/graphql''
        then Inr \<lparr>status = 200,
                  data = JObj [(''errors'', JArr [JObj [(''message'', JStr ''Cannot query field'')]])]\<rparr>
      else Inl (status_error 500 JNull))"

text \<open>A backend that is up but rejects the login (status 401) and every request that
  carries no \<open>Authorization\<close> header.\<close>

definition login_rejecting_backend :: server where
  "login_rejecting_backend history req =
     (if url req = ''/health'' then Inr \<lparr>status = 200, data = JObj [(''status'', JStr ''ok'')]\<rparr>
      else if map_of (headers req) ''Authorization'' = None
        then Inl (status_error 401 (JObj [(''message'', JStr ''Unauthorized'')]))
      else Inr \<lparr>status = 200, data = JObj []\<rparr>)"

subsection \<open>The create block in closed form\<close>

text \<open>The state in which \<open>create_block\<close> leaves the probe, written without exceptions:
  used to reason about \<open>testApplicationEndpoints\<close>, and proved equal to the block.\<close>

definition after_create :: "server \<Rightarrow> probe_state \<Rightarrow> probe_state" where
  "after_create srv = (\<lambda>(t, rs, es).
     (let a = fst (client_post srv ''/api/v1/applications'' createData t);
          t1 = snd (client_post srv ''/api/v1/applications'' createData t)
      in if truthy (created_id a)
         then (let u = ''/api/v1/applications/'' @ js_string (the (created_id a));
                   g = client_get srv u t1;
                   p = client_put srv u updateData (snd g);
                   d = client_delete srv u (snd p)
               in (snd d,
                   assign ''deleteApplication'' (passed (fst d) 200)
                    (assign ''updateApplication'' (passed (fst p) 200)
                     (assign ''getApplication'' (passed (fst g) 200)
                      (assign ''createApplication'' (passed a 201) rs))),
                   es @ complaint ''Get application failed: '' (fst g)
                      @ complaint ''Update application failed: '' (fst p)
                      @ complaint ''Delete application failed: '' (fst d)))
         else (t1,
               assign ''createApplication''
                 (case a of
                    Inl e \<Rightarrow> False
                  | Inr cr \<Rightarrow>
                      (case member (Some (data cr)) ''data'' of
                         Inl e \<Rightarrow> False
                       | Inr d \<Rightarrow> status cr = 201)) rs,
               es @ (case a of
                       Inl e \<Rightarrow> [''Create application failed: '' @ message e]
                     | Inr cr \<Rightarrow>
                         (case member (Some (data cr)) ''data'' of
                            Inl e \<Rightarrow> [''Create application failed: '' @ message e]
                          | Inr d \<Rightarrow> [])))))"

subsection \<open>Further notions used in the proofs\<close>

text \<open>The login request of \<open>testAuthentication\<close>, the credentials that
  \<open>runFullIntegrationTest\<close> logs in with, the invariant of the stored token (none, or
  a truthy one), and a log that continues another.\<close>

definition login :: "server \<Rightarrow> credentials \<Rightarrow> tester \<Rightarrow> (js_error + http_response) \<times> tester" where
  "login srv c t = client_post srv ''/auth/login'' (credentials_json c) t"

definition admin :: credentials where
  "admin = \<lparr>username = ''admin'', password = ''admin123''\<rparr>"

definition token_ok :: "tester \<Rightarrow> bool" where
  "token_ok t = (authToken t = None \<or> truthy (authToken t))"

definition extends :: "tester \<Rightarrow> tester \<Rightarrow> bool" where
  "extends t t' = (\<exists>xs. exchanges t' = exchanges t @ xs)"

subsection \<open>Notions used for the runner\<close>

text \<open>A target whose requests fail after 4999 ms each; an environment where nothing
  answers; the truthiness of \<open>result.success\<close>; the lines that \<open>generateReport\<close> prints
  for one phase, the three phases it reports, and the two closing lines.\<close>

definition slow_target :: "nat \<Rightarrow> nat \<times> bool" where
  "slow_target k = (4999, False)"

definition quiet_env :: environment where
  "quiet_env =
     \<lparr>existsSync = (\<lambda>p. True), exec = (\<lambda>c. Inr []), backendOutput = [TimerFired],
      frontendOutput = [TimerFired], backendApi = down_backend,
      httpGet = (\<lambda>u k. (0, False)), writeFileSync = (\<lambda>p. None)\<rparr>"

text \<open>The backend prints its banner; the dev server finds port 3000 taken, listens on
  3001 and says it is ready; then the timers fire and nothing more happens.\<close>

definition port_taken_env :: environment where
  "port_taken_env = quiet_env
     \<lparr>backendOutput := [Stdout ''INFO: Uvicorn running on http://0.0.0.0:8000'', TimerFired],
      frontendOutput := [Stdout ''- Local: http://localhost:3001'', Stdout ''Ready in 2.1s'',
                         TimerFired]\<rparr>"

text \<open>The backend prints its banner; the dev server prints an error and never says it
  is ready.\<close>

definition frontend_timeout_env :: environment where
  "frontend_timeout_env = quiet_env
     \<lparr>backendOutput := [Stdout ''INFO: Uvicorn running on http://0.0.0.0:8000'', TimerFired],
      frontendOutput := [Stderr ''Error: Cannot find module next'', TimerFired]\<rparr>"

definition phase_success :: "json \<Rightarrow> bool" where
  "phase_success v = truthy (opt_member (Some v) ''success'')"

text \<open>one phase line\<close>

definition phase_lines :: "string \<Rightarrow> json \<Rightarrow> event list" where
  "phase_lines name result =
     (if phase_success result then [Print (name @ '': PASS'')]
      else Print (name @ '': FAIL'') #
           (if truthy (opt_member (Some result) ''error'')
            then [Print (''  Error: '' @ js_string (the (opt_member (Some result) ''error'')))]
            else []))"

definition report_phases :: "test_results \<Rightarrow> (string \<times> json) list" where
  "report_phases tr =
     [(''API Integration'', integration tr), (''Frontend Tests'', frontend tr),
      (''E2E Tests'', e2e tr)]"

definition verdict_lines :: "bool \<Rightarrow> event list" where
  "verdict_lines ok =
     (if ok then [Print ''All integration tests passed!'',
                  Print ''Frontend is ready for production deployment.'']
      else [Print ''Some tests failed. Please review the results above.'',
            Print ''Fix the issues before deploying to production.''])"

text \<open>An environment where both children become ready and every poll succeeds, and
  the events by which a run lets go of its resources.\<close>

definition ready_env :: environment where
  "ready_env = quiet_env
     \<lparr>backendOutput := [Stdout ''INFO: Uvicorn running on http://0.0.0.0:8000'', TimerFired],
      frontendOutput := [Stdout ''- Local: http://localhost:3000'', Stdout ''Ready in 2.1s'',
                         TimerFired],
      httpGet := (\<lambda>u k. (20, True))\<rparr>"

fun is_release :: "event \<Rightarrow> bool" where
  "is_release CleanupCalled = True"
| "is_release (Kill p) = True"
| "is_release (ProcessExit n) = True"
| "is_release e = False"

text \<open>A runner whose three phases have all passed.\<close>

definition passed_runner :: runner where
  "passed_runner = (new_runner 0)
     \<lparr>testResults := \<lparr>backend = JObj [], frontend = JObj [(''success'', JBool True)],
         integration = JObj [(''success'', JBool True), (''summary'', JStr ''ok'')],
         e2e = JObj [(''success'', JBool True)]\<rparr>\<rparr>"

section \<open>The probes in closed form\<close>

lemma seq_fst:
  "seq m f s = (case fst (m s) of Inl e \<Rightarrow> (Inl e, snd (m s)) | Inr x \<Rightarrow> f x (snd (m s)))"
  by (simp add: seq_def split: prod.splits sum.splits)

lemma try_catch_fst:
  "try_catch b h s =
     (case fst (b s) of Inl e \<Rightarrow> h e (snd (b s)) | Inr x \<Rightarrow> (Inr x, snd (b s)))"
  by (simp add: try_catch_def split: prod.splits sum.splits)

lemma with_client_apply: "with_client m (t, rs, es) = (fst (m t), (snd (m t), rs, es))"
  by (simp add: with_client_def split: prod.splits)

lemma set_result_apply: "set_result k v (t, rs, es) = (Inr (), (t, assign k v rs, es))"
  by (simp add: set_result_def)

lemma push_error_apply: "push_error m (t, rs, es) = (Inr (), (t, rs, es @ [m]))"
  by (simp add: push_error_def)

lemmas comp_simps = seq_fst try_catch_fst with_client_apply set_result_apply push_error_apply
  ret_def lift_def

lemma attempt_eval:
  "attempt req k n l (t, rs, es) =
     (Inr (), (snd (req t), assign k (passed (fst (req t)) n) rs, es @ complaint l (fst (req t))))"
  by (simp add: attempt_def comp_simps passed_def complaint_def split: sum.splits)

lemma seq_attempt:
  "seq (attempt req k n l) f (t, rs, es) =
     f () (snd (req t), assign k (passed (fst (req t)) n) rs, es @ complaint l (fst (req t)))"
  by (simp add: seq_def attempt_eval)

lemma assign_twice [simp]: "assign k v (assign k w kvs) = assign k v kvs"
  by (induction kvs) auto

lemma create_block_eval: "create_block srv s = (Inr (), after_create srv s)"
proof (cases s)
  case (fields t rs es)
  show ?thesis
  proof (cases "fst (client_post srv ''/api/v1/applications'' createData t)")
    case (Inl e)
    then show ?thesis unfolding fields
      by (simp add: create_block_def comp_simps after_create_def created_id_def Let_def)
  next
    case (Inr cr)
    show ?thesis
    proof (cases "member (Some (data cr)) ''data''")
      case (Inl e)
      then show ?thesis unfolding fields using Inr
        by (simp add: create_block_def comp_simps after_create_def created_id_def Let_def)
    next
      case d: (Inr d)
      show ?thesis
      proof (cases "truthy (opt_member d ''id'')")
        case True
        then show ?thesis unfolding fields using Inr d
          by (simp add: create_block_def comp_simps attempt_eval passed_def
             after_create_def created_id_def Let_def)
      next
        case False
        then show ?thesis unfolding fields using Inr d
          by (simp add: create_block_def comp_simps after_create_def created_id_def Let_def)
      qed
    qed
  qed
qed

lemma conn_eval:
  "testConnectivity srv t =
     (Inr (passed (fst (client_get srv ''/health'' t)) 200), snd (client_get srv ''/health'' t))"
  by (simp add: testConnectivity_def comp_simps passed_def split: sum.splits)

lemma auth_eval:
  "testAuthentication srv c t =
     (case fst (login srv c t) of
        Inl e \<Rightarrow>
          (Inr \<lparr>success = False,
                error = js_or (opt_member (map_option data (response e)) ''message'')
                              (Some (JStr (message e))),
                token = None\<rparr>, snd (login srv c t))
      | Inr r \<Rightarrow>
          (case member (Some (data r)) ''access_token'' of
             Inl e \<Rightarrow>
               (Inr \<lparr>success = False,
                     error = js_or (opt_member (map_option data (response e)) ''message'')
                                   (Some (JStr (message e))),
                     token = None\<rparr>, snd (login srv c t))
           | Inr tok \<Rightarrow>
               if truthy tok
               then (Inr \<lparr>success = True, error = None, token = tok\<rparr>,
                     (snd (login srv c t))\<lparr>authToken := tok\<rparr>)
               else (Inr \<lparr>success = False, error = Some (JStr ''No token received''),
                          token = None\<rparr>, snd (login srv c t))))"
  by (simp add: testAuthentication_def login_def comp_simps set_authToken_def split: sum.splits)

lemma gql_eval:
  "testGraphQLEndpoint srv t =
     (let p = client_post srv ''/graphql'' (JObj [(''query'', JStr query)]) t in
      case fst p of
        Inl e \<Rightarrow> (Inr \<lparr>success = False, error = Some (JStr (message e))\<rparr>, snd p)
      | Inr r \<Rightarrow>
          (case member (Some (data r)) ''errors'' of
             Inl e \<Rightarrow> (Inr \<lparr>success = False, error = Some (JStr (message e))\<rparr>, snd p)
           | Inr errs \<Rightarrow>
               (Inr \<lparr>success = (status r = 200 \<and> \<not> truthy errs),
                     error = opt_member (opt_index0 errs) ''message''\<rparr>, snd p)))"
  by (simp add: testGraphQLEndpoint_def comp_simps Let_def split: sum.splits)

lemma dep_eval: "testDeploymentEndpoints srv t =
   (let a = fst (client_get srv ''/api/v1/deployments'' t) in
   (Inr \<lparr>success = passed a 200, results = [(''listDeployments'', passed a 200)],
         errors = complaint ''List deployments failed: '' a\<rparr>,
    snd (client_get srv ''/api/v1/deployments'' t)))"
  by (simp add: testDeploymentEndpoints_def with_locals_def seq_attempt return_results_def Let_def)

lemma ai_eval: "testAIEndpoints srv t =
   (let a = fst (client_get srv ''/api/v1/ai/insights'' t);
        t1 = snd (client_get srv ''/api/v1/ai/insights'' t);
        b = fst (client_get srv ''/api/v1/ai/recommendations'' t1) in
   (Inr \<lparr>success = (passed a 200 \<and> passed b 200),
         results = [(''getInsights'', passed a 200), (''getRecommendations'', passed b 200)],
         errors = complaint ''Get AI insights failed: '' a @ complaint ''Get AI recommendations failed: '' b\<rparr>,
    snd (client_get srv ''/api/v1/ai/recommendations'' t1)))"
  by (simp add: testAIEndpoints_def with_locals_def seq_attempt return_results_def Let_def)

lemma app_eval: "testApplicationEndpoints srv t =
  (let l = client_get srv ''/api/v1/applications'' t;
       s = after_create srv (snd l, [(''listApplications'', passed (fst l) 200)],
                 complaint ''List applications failed: '' (fst l))
   in (Inr \<lparr>success = list_all (\<lambda>b. b) (map snd (fst (snd s))), results = fst (snd s),
             errors = snd (snd s)\<rparr>, fst s))"
  by (simp add: testApplicationEndpoints_def with_locals_def seq_attempt
      seq_def[of "create_block _"] create_block_eval return_results_def Let_def split: prod.splits)

subsection \<open>No probe throws\<close>

lemma conn_never: "\<not> isl (fst (testConnectivity srv t))"
  by (simp add: conn_eval)

lemma auth_never: "\<not> isl (fst (testAuthentication srv c t))"
  by (simp add: auth_eval split: sum.splits)

lemma gql_never: "\<not> isl (fst (testGraphQLEndpoint srv t))"
  by (simp add: gql_eval Let_def split: sum.splits)

lemma dep_never: "\<not> isl (fst (testDeploymentEndpoints srv t))"
  by (simp add: dep_eval Let_def)

lemma ai_never: "\<not> isl (fst (testAIEndpoints srv t))"
  by (simp add: ai_eval Let_def)

lemma app_never: "\<not> isl (fst (testApplicationEndpoints srv t))"
  by (simp add: app_eval Let_def)

subsection \<open>The log of requests\<close>

lemma outgoing_verb [simp]: "verb (outgoing t m u b) = m"
  and outgoing_url [simp]: "url (outgoing t m u b) = u"
  and outgoing_body [simp]: "body (outgoing t m u b) = b"
  by (simp_all add: outgoing_def interceptor_def)

lemma client_request_exchanges:
  "exchanges (snd (client_request srv m u b t)) =
     exchanges t @ [(outgoing t m u b, fst (client_request srv m u b t))]"
  by (simp add: client_request_def Let_def)

lemma client_request_authToken [simp]:
  "authToken (snd (client_request srv m u b t)) = authToken t"
  by (simp add: client_request_def Let_def)

lemmas client_defs = client_get_def client_post_def client_put_def client_delete_def


lemma passed_Inl [simp]: "passed (Inl e) n = False"
  by (simp add: passed_def)

lemma complaint_Inl [simp]: "complaint l (Inl e) = [l @ message e]"
  by (simp add: complaint_def)

lemma created_id_Inl [simp]: "created_id (Inl e) = None"
  by (simp add: created_id_def)

lemma conn_fail:
  "\<forall>x \<in> set (new_exchanges t (snd (testConnectivity srv t))).
     isl (snd x) \<longrightarrow> fst (testConnectivity srv t) = Inr False"
  by (auto simp add: conn_eval new_exchanges_def client_defs client_request_exchanges isl_def)

lemma auth_fail:
  "\<forall>x \<in> set (new_exchanges t (snd (testAuthentication srv c t))). \<forall>e.
     snd x = Inl e \<longrightarrow>
       fst (testAuthentication srv c t) =
         Inr \<lparr>success = False,
              error = js_or (opt_member (map_option data (response e)) ''message'')
                            (Some (JStr (message e))),
              token = None\<rparr>"
  by (auto simp add: auth_eval login_def new_exchanges_def client_defs client_request_exchanges
      split: sum.splits)

lemma gql_fail:
  "\<forall>x \<in> set (new_exchanges t (snd (testGraphQLEndpoint srv t))). \<forall>e.
     snd x = Inl e \<longrightarrow>
       fst (testGraphQLEndpoint srv t) = Inr \<lparr>success = False, error = Some (JStr (message e))\<rparr>"
  by (auto simp add: gql_eval Let_def new_exchanges_def client_defs client_request_exchanges
      split: sum.splits)

lemma dep_fail:
  "\<forall>x \<in> set (new_exchanges t (snd (testDeploymentEndpoints srv t))). \<forall>e.
     snd x = Inl e \<longrightarrow>
       (\<exists>out. fst (testDeploymentEndpoints srv t) = Inr out \<and> \<not> success out \<and>
              (\<exists>m \<in> set (errors out). suffix (message e) m))"
  by (auto simp add: dep_eval Let_def new_exchanges_def client_defs client_request_exchanges
      suffix_def)

lemma ai_fail:
  "\<forall>x \<in> set (new_exchanges t (snd (testAIEndpoints srv t))). \<forall>e.
     snd x = Inl e \<longrightarrow>
       (\<exists>out. fst (testAIEndpoints srv t) = Inr out \<and> \<not> success out \<and>
              (\<exists>m \<in> set (errors out). suffix (message e) m))"
  by (auto simp add: ai_eval Let_def new_exchanges_def client_defs client_request_exchanges
      suffix_def)

lemma app_fail:
  "\<forall>x \<in> set (new_exchanges t (snd (testApplicationEndpoints srv t))). \<forall>e.
     snd x = Inl e \<longrightarrow>
       (\<exists>out. fst (testApplicationEndpoints srv t) = Inr out \<and> \<not> success out \<and>
              (\<exists>m \<in> set (errors out). suffix (message e) m))"
  by (auto simp add: app_eval after_create_def Let_def new_exchanges_def client_defs
      client_request_exchanges suffix_def)

subsection \<open>The stored token\<close>

lemma seq_never: "\<not> isl (fst (m s)) \<Longrightarrow> seq m f s = f (projr (fst (m s))) (snd (m s))"
  by (cases "fst (m s)") (simp_all add: seq_fst)

lemma full_eval:
  "runFullIntegrationTest srv t =
     (let c = projr (fst (testConnectivity srv t)); t1 = snd (testConnectivity srv t) in
      if \<not> c
      then (Inr \<lparr>success = False, results = no_results\<lparr>connectivity := Some c\<rparr>,
             summary = ''Backend is not accessible. Please ensure ultimate-paas-base is running.''\<rparr>, t1)
      else
       (let a = projr (fst (testAuthentication srv admin t1));
            t2 = snd (testAuthentication srv admin t1);
            apps = projr (fst (testApplicationEndpoints srv t2));
            t3 = snd (testApplicationEndpoints srv t2);
            deps = projr (fst (testDeploymentEndpoints srv t3));
            t4 = snd (testDeploymentEndpoints srv t3);
            ais = projr (fst (testAIEndpoints srv t4));
            t5 = snd (testAIEndpoints srv t4);
            g = projr (fst (testGraphQLEndpoint srv t5));
            t6 = snd (testGraphQLEndpoint srv t5);
            overallSuccess = (c \<and> success a \<and> success apps \<and> success deps)
        in (Inr \<lparr>success = overallSuccess,
                  results = no_results\<lparr>connectivity := Some c, authentication := Some a,
                     applications := Some apps, deployments := Some deps, ai := Some ais,
                     graphql := Some g\<rparr>,
                  summary = (if overallSuccess
                    then ''All integration tests passed! Frontend is ready to connect to backend.''
                    else ''Some integration tests failed. Please check the backend configuration.'')\<rparr>,
            t6)))"
  unfolding runFullIntegrationTest_def admin_def[symmetric]
  by (simp add: seq_never conn_never auth_never app_never dep_never ai_never gql_never
      Let_def ret_def del: One_nat_def)

lemma full_never: "\<not> isl (fst (runFullIntegrationTest srv t))"
  by (simp add: full_eval Let_def)

lemma token_conn [simp]: "authToken (snd (testConnectivity srv t)) = authToken t"
  by (simp add: conn_eval client_defs)

lemma token_dep [simp]: "authToken (snd (testDeploymentEndpoints srv t)) = authToken t"
  by (simp add: dep_eval client_defs Let_def)

lemma token_ai [simp]: "authToken (snd (testAIEndpoints srv t)) = authToken t"
  by (simp add: ai_eval client_defs Let_def)

lemma token_gql [simp]: "authToken (snd (testGraphQLEndpoint srv t)) = authToken t"
  by (simp add: gql_eval client_defs Let_def split: sum.splits)

lemma token_app [simp]: "authToken (snd (testApplicationEndpoints srv t)) = authToken t"
  by (simp add: app_eval after_create_def client_defs Let_def)

lemma token_auth:
  "authToken (snd (testAuthentication srv c t)) =
     (if success (projr (fst (testAuthentication srv c t)))
      then token (projr (fst (testAuthentication srv c t))) else authToken t)"
  by (simp add: auth_eval login_def client_defs split: sum.splits)

lemma token_auth_truthy:
  assumes "success (projr (fst (testAuthentication srv c t)))"
  shows "truthy (token (projr (fst (testAuthentication srv c t))))"
proof (cases "fst (login srv c t)")
  case (Inl e)
  then show ?thesis using assms by (simp add: auth_eval)
next
  case (Inr r)
  then show ?thesis using assms
    by (cases "member (Some (data r)) ''access_token''") (simp_all add: auth_eval split: if_splits)
qed

lemma truthy_not_None: "truthy v \<Longrightarrow> v \<noteq> None"
  by (cases v) auto

lemma perform_step:
  "(authToken (snd (perform srv c t)) \<noteq> None) =
     (authToken t \<noteq> None \<or> login_succeeded (fst (perform srv c t)))"
  "token_ok t \<Longrightarrow> token_ok (snd (perform srv c t))"
  "\<not> login_succeeded (fst (perform srv c t)) \<Longrightarrow> authToken (snd (perform srv c t)) = authToken t"
proof -
  note nv = conn_never auth_never app_never dep_never ai_never gql_never full_never
  have A: "(authToken (snd (perform srv c t)) \<noteq> None) =
     (authToken t \<noteq> None \<or> login_succeeded (fst (perform srv c t)))
     \<and> (token_ok t \<longrightarrow> token_ok (snd (perform srv c t)))
     \<and> (\<not> login_succeeded (fst (perform srv c t)) \<longrightarrow> authToken (snd (perform srv c t)) = authToken t)"
  proof (cases c)
    case (TestAuthentication cr)
    then show ?thesis
      using token_auth_truthy[of srv cr t]
      by (auto simp add: seq_never nv ret_def token_auth token_ok_def dest: truthy_not_None)
  next
    case RunFullIntegrationTest
    have "\<not> isl (fst (runFullIntegrationTest srv t))" by (rule full_never)
    then show ?thesis
      unfolding RunFullIntegrationTest
      using token_auth_truthy[of srv admin "snd (testConnectivity srv t)"]
      by (auto simp add: seq_never ret_def full_eval Let_def token_auth token_ok_def no_results_def
          dest: truthy_not_None)
  qed (simp_all add: seq_never nv ret_def token_ok_def)
  from A show "(authToken (snd (perform srv c t)) \<noteq> None) =
     (authToken t \<noteq> None \<or> login_succeeded (fst (perform srv c t)))"
   "token_ok t \<Longrightarrow> token_ok (snd (perform srv c t))"
  "\<not> login_succeeded (fst (perform srv c t)) \<Longrightarrow> authToken (snd (perform srv c t)) = authToken t"
    by blast+
qed

lemma perform_all_token:
  "(authToken (snd (perform_all srv cs t)) \<noteq> None) =
     (authToken t \<noteq> None \<or> (\<exists>r \<in> set (fst (perform_all srv cs t)). login_succeeded r))"
proof (induction cs arbitrary: t)
  case Nil
  then show ?case by simp
next
  case (Cons c cs)
  show ?case
    using Cons.IH[of "snd (perform srv c t)"] perform_step(1)[of srv c t]
    by (auto simp add: split: prod.splits)
qed

lemma perform_all_ok: "token_ok t \<Longrightarrow> token_ok (snd (perform_all srv cs t))"
proof (induction cs arbitrary: t)
  case Nil
  then show ?case by simp
next
  case (Cons c cs)
  show ?case
    using Cons.IH[of "snd (perform srv c t)"] perform_step(2)[of t srv c] Cons.prems
    by (auto simp add: split: prod.splits)
qed

lemma header_iff:
  "token_ok t \<Longrightarrow> map_of (headers (outgoing t m u b)) ''Authorization'' =
     map_option (\<lambda>tok. ''Bearer '' @ js_string tok) (authToken t)"
  by (cases "authToken t") (auto simp add: token_ok_def outgoing_def interceptor_def)

subsection \<open>The requests of a full run\<close>

lemma requested_conn: "requested t (snd (testConnectivity srv t)) = [(GET, ''/health'')]"
  by (simp add: conn_eval requested_def new_exchanges_def client_defs client_request_exchanges)

lemma extends_refl [simp]: "extends t t"
  by (simp add: extends_def)

lemma extends_trans: "extends a b \<Longrightarrow> extends b c \<Longrightarrow> extends a c"
  by (auto simp add: extends_def)

lemma extends_request [simp]: "extends t (snd (client_request srv m u b t))"
  by (simp add: extends_def client_request_exchanges)

lemma extends_request': "extends t t1 \<Longrightarrow> extends t (snd (client_request srv m u b t1))"
  using extends_trans extends_request by blast

lemma requested_append:
  "extends a b \<Longrightarrow> extends b c \<Longrightarrow> requested a c = requested a b @ requested b c"
  by (auto simp add: extends_def requested_def new_exchanges_def)

lemma ext_conn: "extends t (snd (testConnectivity srv t))"
  by (simp add: conn_eval client_defs)

lemma ext_auth: "extends t (snd (testAuthentication srv c t))"
  by (simp add: auth_eval login_def client_defs extends_def client_request_exchanges split: sum.splits)

lemma ext_dep: "extends t (snd (testDeploymentEndpoints srv t))"
  by (simp add: dep_eval client_defs Let_def)

lemma ext_ai: "extends t (snd (testAIEndpoints srv t))"
  by (simp add: ai_eval client_defs Let_def extends_request')

lemma ext_gql: "extends t (snd (testGraphQLEndpoint srv t))"
  by (simp add: gql_eval client_defs Let_def split: sum.splits)

lemma ext_app: "extends t (snd (testApplicationEndpoints srv t))"
  by (simp add: app_eval after_create_def client_defs Let_def extends_request')

lemma requested_auth: "requested t (snd (testAuthentication srv c t)) = [(POST, ''/auth/login'')]"
  by (simp add: auth_eval login_def requested_def new_exchanges_def client_defs
      client_request_exchanges split: sum.splits)

lemma requested_dep:
  "requested t (snd (testDeploymentEndpoints srv t)) = [(GET, ''/api/v1/deployments'')]"
  by (simp add: dep_eval Let_def requested_def new_exchanges_def client_defs client_request_exchanges)

lemma requested_ai:
  "requested t (snd (testAIEndpoints srv t)) =
     [(GET, ''/api/v1/ai/insights''), (GET, ''/api/v1/ai/recommendations'')]"
  by (simp add: ai_eval Let_def requested_def new_exchanges_def client_defs client_request_exchanges)

lemma requested_gql: "requested t (snd (testGraphQLEndpoint srv t)) = [(POST, ''/graphql'')]"
  by (simp add: gql_eval Let_def requested_def new_exchanges_def client_defs
      client_request_exchanges split: sum.splits)

lemma requested_app:
  "\<exists>more. requested t (snd (testApplicationEndpoints srv t)) =
     (GET, ''/api/v1/applications'') # (POST, ''/api/v1/applications'') # more"
  by (simp add: app_eval after_create_def Let_def requested_def new_exchanges_def client_defs
      client_request_exchanges)

lemma requested_full:
  assumes "projr (fst (testConnectivity srv t))"
  shows "\<exists>more. requested t (snd (runFullIntegrationTest srv t)) =
     [(GET, ''/health''), (POST, ''/auth/login''), (GET, ''/api/v1/applications''),
      (POST, ''/api/v1/applications'')] @ more @
     [(GET, ''/api/v1/deployments''), (GET, ''/api/v1/ai/insights''),
      (GET, ''/api/v1/ai/recommendations''), (POST, ''/graphql'')]"
proof -
  define t1 where "t1 = snd (testConnectivity srv t)"
  define t2 where "t2 = snd (testAuthentication srv admin t1)"
  define t3 where "t3 = snd (testApplicationEndpoints srv t2)"
  define t4 where "t4 = snd (testDeploymentEndpoints srv t3)"
  define t5 where "t5 = snd (testAIEndpoints srv t4)"
  define t6 where "t6 = snd (testGraphQLEndpoint srv t5)"
  have end_state: "snd (runFullIntegrationTest srv t) = t6"
    using assms by (simp add: full_eval Let_def t1_def t2_def t3_def t4_def t5_def t6_def)
  have e1: "extends t t1" unfolding t1_def by (rule ext_conn)
  have e2: "extends t1 t2" unfolding t2_def by (rule ext_auth)
  have e3: "extends t2 t3" unfolding t3_def by (rule ext_app)
  have e4: "extends t3 t4" unfolding t4_def by (rule ext_dep)
  have e5: "extends t4 t5" unfolding t5_def by (rule ext_ai)
  have e6: "extends t5 t6" unfolding t6_def by (rule ext_gql)
  have q1: "requested t t1 = [(GET, ''/health'')]" unfolding t1_def by (rule requested_conn)
  have q2: "requested t1 t2 = [(POST, ''/auth/login'')]" unfolding t2_def by (rule requested_auth)
  have "\<exists>more. requested t2 t3 =
     (GET, ''/api/v1/applications'') # (POST, ''/api/v1/applications'') # more"
    unfolding t3_def by (rule requested_app)
  then obtain more where q3: "requested t2 t3 =
     (GET, ''/api/v1/applications'') # (POST, ''/api/v1/applications'') # more"
    by blast
  have q4: "requested t3 t4 = [(GET, ''/api/v1/deployments'')]"
    unfolding t4_def by (rule requested_dep)
  have q5: "requested t4 t5 =
     [(GET, ''/api/v1/ai/insights''), (GET, ''/api/v1/ai/recommendations'')]"
    unfolding t5_def by (rule requested_ai)
  have q6: "requested t5 t6 = [(POST, ''/graphql'')]" unfolding t6_def by (rule requested_gql)
  have e12: "extends t t2" by (rule extends_trans[OF e1 e2])
  have e13: "extends t t3" by (rule extends_trans[OF e12 e3])
  have e14: "extends t t4" by (rule extends_trans[OF e13 e4])
  have e15: "extends t t5" by (rule extends_trans[OF e14 e5])
  have "requested t t6 = ((((requested t t1 @ requested t1 t2) @ requested t2 t3)
      @ requested t3 t4) @ requested t4 t5) @ requested t5 t6"
    by (simp only: requested_append[OF e15 e6] requested_append[OF e14 e5]
        requested_append[OF e13 e4] requested_append[OF e12 e3] requested_append[OF e1 e2])
  then have "requested t t6 =
     [(GET, ''/health''), (POST, ''/auth/login''), (GET, ''/api/v1/applications''),
      (POST, ''/api/v1/applications'')] @ more @
     [(GET, ''/api/v1/deployments''), (GET, ''/api/v1/ai/insights''),
      (GET, ''/api/v1/ai/recommendations''), (POST, ''/graphql'')]"
    by (simp only: q1 q2 q3 q4 q5 q6 append.simps append_assoc)
  then show ?thesis unfolding end_state by blast
qed

section \<open>Properties of the API probes\<close>

text \<open>
  Claim C10. In \<open>testApplicationEndpoints\<close> the get, update and delete sub-probes run
  only when the answer to the create request carries an id: when \<open>created_id\<close> of that
  answer is truthy, the probe sends the five requests and \<open>results\<close> has the five keys;
  when the create request failed or brought no id, it sends two requests and \<open>results\<close>
  has the two keys \<open>listApplications\<close> and \<open>createApplication\<close> only. In both cases the
  probe returns, and its \<open>success\<close> is the conjunction of the values of the keys that are
  present.
\<close>

theorem create_gates_item_probes:
  "let t1 = snd (client_get srv ''/api/v1/applications'' t);
       created = fst (client_post srv ''/api/v1/applications'' createData t1);
       r = fst (testApplicationEndpoints srv t);
       t' = snd (testApplicationEndpoints srv t)
   in \<exists>out. r = Inr out \<and>
        success out = list_all (\<lambda>b. b) (map snd (results out)) \<and>
        (if truthy (created_id created)
         then map fst (results out) =
                [''listApplications'', ''createApplication'', ''getApplication'',
                 ''updateApplication'', ''deleteApplication''] \<and>
              requested t t' =
                [(GET, ''/api/v1/applications''), (POST, ''/api/v1/applications''),
                 (GET, ''/api/v1/applications/'' @ js_string (the (created_id created))),
                 (PUT, ''/api/v1/applications/'' @ js_string (the (created_id created))),
                 (DELETE, ''/api/v1/applications/'' @ js_string (the (created_id created)))]
         else map fst (results out) = [''listApplications'', ''createApplication''] \<and>
              requested t t' = [(GET, ''/api/v1/applications''), (POST, ''/api/v1/applications'')])"
  by (simp add: app_eval after_create_def Let_def client_defs client_request_exchanges
      requested_def new_exchanges_def)

text \<open>The two branches, on a backend that returns the id 7 and on one that is down.\<close>

lemma broken_created:
  "created_id (fst (client_post analytics_broken_backend ''/api/v1/applications'' createData
      (snd (client_get analytics_broken_backend ''/api/v1/applications'' new_tester)))) = Some (JNum 7)"
  by (simp add: client_defs client_request_def Let_def outgoing_def interceptor_def new_tester_def
      analytics_broken_backend_def created_id_def)

lemma down_created:
  "created_id (fst (client_post down_backend ''/api/v1/applications'' createData
      (snd (client_get down_backend ''/api/v1/applications'' new_tester)))) = None"
  by (simp add: client_defs client_request_def Let_def down_backend_def)

theorem create_gates_item_probes_witness:
  "map fst (results (projr (fst (testApplicationEndpoints analytics_broken_backend new_tester)))) =
     [''listApplications'', ''createApplication'', ''getApplication'',
      ''updateApplication'', ''deleteApplication''] \<and>
   requested new_tester (snd (testApplicationEndpoints analytics_broken_backend new_tester)) =
     [(GET, ''/api/v1/applications''), (POST, ''/api/v1/applications''),
      (GET, ''/api/v1/applications/7''), (PUT, ''/api/v1/applications/7''),
      (DELETE, ''/api/v1/applications/7'')] \<and>
   map fst (results (projr (fst (testApplicationEndpoints down_backend new_tester)))) =
     [''listApplications'', ''createApplication''] \<and>
   requested new_tester (snd (testApplicationEndpoints down_backend new_tester)) =
     [(GET, ''/api/v1/applications''), (POST, ''/api/v1/applications'')]"
proof -
  have seven: "dec_int 7 = ''7''"
    by code_simp
  show ?thesis
    using create_gates_item_probes [of analytics_broken_backend new_tester]
      create_gates_item_probes [of down_backend new_tester]
    unfolding Let_def broken_created down_created
    by (auto simp add: seven)
qed

text \<open>
  Claim C6. No probe of \<open>BackendApiTester\<close> throws, whatever the backend answers and
  whatever the state of the tester: each of the six returns a value. When a request that
  the probe sent was answered by a thrown error \<open>e\<close> (a transport failure, or an error
  status), the probe returns a failure: \<open>testConnectivity\<close> returns \<open>false\<close>;
  \<open>testAuthentication\<close> returns \<open>success: false\<close> with
  \<open>e.response?.data?.message || e.message\<close> as its error; \<open>testGraphQLEndpoint\<close>
  returns \<open>success: false\<close> with \<open>e.message\<close>; the three endpoint probes return
  \<open>success: false\<close> and an entry of \<open>errors\<close> that ends in \<open>e.message\<close>.
\<close>

theorem probes_convert_errors:
  "\<not> isl (fst (testConnectivity srv t)) \<and>
   \<not> isl (fst (testAuthentication srv c t)) \<and>
   \<not> isl (fst (testApplicationEndpoints srv t)) \<and>
   \<not> isl (fst (testDeploymentEndpoints srv t)) \<and>
   \<not> isl (fst (testAIEndpoints srv t)) \<and>
   \<not> isl (fst (testGraphQLEndpoint srv t)) \<and>
   (\<forall>x \<in> set (new_exchanges t (snd (testConnectivity srv t))).
      isl (snd x) \<longrightarrow> fst (testConnectivity srv t) = Inr False) \<and>
   (\<forall>x \<in> set (new_exchanges t (snd (testAuthentication srv c t))). \<forall>e.
      snd x = Inl e \<longrightarrow>
        fst (testAuthentication srv c t) =
          Inr \<lparr>success = False,
               error = js_or (opt_member (map_option data (response e)) ''message'')
                             (Some (JStr (message e))),
               token = None\<rparr>) \<and>
   (\<forall>x \<in> set (new_exchanges t (snd (testGraphQLEndpoint srv t))). \<forall>e.
      snd x = Inl e \<longrightarrow>
        fst (testGraphQLEndpoint srv t) =
          Inr \<lparr>success = False, error = Some (JStr (message e))\<rparr>) \<and>
   (\<forall>x \<in> set (new_exchanges t (snd (testApplicationEndpoints srv t))). \<forall>e.
      snd x = Inl e \<longrightarrow>
        (\<exists>out. fst (testApplicationEndpoints srv t) = Inr out \<and> \<not> success out \<and>
               (\<exists>m \<in> set (errors out). suffix (message e) m))) \<and>
   (\<forall>x \<in> set (new_exchanges t (snd (testDeploymentEndpoints srv t))). \<forall>e.
      snd x = Inl e \<longrightarrow>
        (\<exists>out. fst (testDeploymentEndpoints srv t) = Inr out \<and> \<not> success out \<and>
               (\<exists>m \<in> set (errors out). suffix (message e) m))) \<and>
   (\<forall>x \<in> set (new_exchanges t (snd (testAIEndpoints srv t))). \<forall>e.
      snd x = Inl e \<longrightarrow>
        (\<exists>out. fst (testAIEndpoints srv t) = Inr out \<and> \<not> success out \<and>
               (\<exists>m \<in> set (errors out). suffix (message e) m)))"
  using conn_never[of srv t] auth_never[of srv c t] app_never[of srv t] dep_never[of srv t]
    ai_never[of srv t] gql_never[of srv t] conn_fail[of t srv] auth_fail[of t srv c]
    gql_fail[of t srv] app_fail[of t srv] dep_fail[of t srv] ai_fail[of t srv]
  by (intro conjI) assumption+

text \<open>
  On a backend that is down every request is refused, and every probe reports it.
\<close>

lemma down_exchange:
  "new_exchanges new_tester (snd (client_request down_backend m u b new_tester)) =
     [(\<lparr>verb = m, url = u, body = b, headers = [(''Content-Type'', ''application/json'')]\<rparr>,
       Inl refused)]"
  by (simp add: new_exchanges_def client_request_def Let_def outgoing_def interceptor_def
      new_tester_def down_backend_def)

lemma down_answer: "fst (client_request down_backend m u b t) = Inl refused"
  by (simp add: client_request_def Let_def down_backend_def)

theorem probes_convert_errors_witness:
  "fst (testConnectivity down_backend new_tester) = Inr False \<and>
   fst (testAuthentication down_backend admin new_tester) =
     Inr \<lparr>success = False, error = Some (JStr ''connect ECONNREFUSED 127.0.0.1:8000''),
          token = None\<rparr> \<and>
   fst (testGraphQLEndpoint down_backend new_tester) =
     Inr \<lparr>success = False, error = Some (JStr ''connect ECONNREFUSED 127.0.0.1:8000'')\<rparr> \<and>
   \<not> success (projr (fst (testDeploymentEndpoints down_backend new_tester)))"
proof -
  note inst = probes_convert_errors [of down_backend new_tester admin]
  have c: "(\<lparr>verb = GET, url = ''/health'', body = None,
             headers = [(''Content-Type'', ''application/json'')]\<rparr>, Inl refused)
        \<in> set (new_exchanges new_tester (snd (testConnectivity down_backend new_tester)))"
    by (simp add: conn_eval client_defs down_exchange)
  have a: "(\<lparr>verb = POST, url = ''/auth/login'', body = Some (credentials_json admin),
             headers = [(''Content-Type'', ''application/json'')]\<rparr>, Inl refused)
        \<in> set (new_exchanges new_tester (snd (testAuthentication down_backend admin new_tester)))"
    by (simp add: auth_eval login_def client_defs down_exchange down_answer)
  have g: "(\<lparr>verb = POST, url = ''/graphql'', body = Some (JObj [(''query'', JStr query)]),
             headers = [(''Content-Type'', ''application/json'')]\<rparr>, Inl refused)
        \<in> set (new_exchanges new_tester (snd (testGraphQLEndpoint down_backend new_tester)))"
    by (simp add: gql_eval client_defs down_exchange down_answer Let_def)
  have d: "(\<lparr>verb = GET, url = ''/api/v1/deployments'', body = None,
             headers = [(''Content-Type'', ''application/json'')]\<rparr>, Inl refused)
        \<in> set (new_exchanges new_tester (snd (testDeploymentEndpoints down_backend new_tester)))"
    by (simp add: dep_eval client_defs down_exchange Let_def)
  from inst c have 1: "fst (testConnectivity down_backend new_tester) = Inr False"
    by fastforce
  from inst a have 2: "fst (testAuthentication down_backend admin new_tester) =
          Inr \<lparr>success = False,
               error = js_or (opt_member (map_option data (response refused)) ''message'')
                             (Some (JStr (message refused))),
               token = None\<rparr>"
    by fastforce
  from inst g have 3: "fst (testGraphQLEndpoint down_backend new_tester) =
          Inr \<lparr>success = False, error = Some (JStr (message refused))\<rparr>"
    by fastforce
  from inst d have 4: "\<not> success (projr (fst (testDeploymentEndpoints down_backend new_tester)))"
    by fastforce
  show ?thesis
    using 1 2 3 4 by (simp add: refused_def js_or_def)
qed

section \<open>Properties of \<open>runFullIntegrationTest\<close> and of the token\<close>

lemma new_tester_ok: "token_ok new_tester"
  by (simp add: token_ok_def new_tester_def)

text \<open>
  Claim C9. After any sequence of calls on a new tester, a token is stored if and only if
  some call so far ran \<open>testAuthentication\<close> with success. From such a state, a call in
  which no login succeeds leaves the stored token as it is; \<open>testAuthentication\<close> stores
  the token it returns when it succeeds and changes nothing otherwise; and the next
  request carries the header \<open>Authorization: Bearer <token>\<close> exactly when a token is
  stored.
\<close>

theorem token_set_only_by_login:
  "let replies = fst (perform_all srv calls new_tester);
       t = snd (perform_all srv calls new_tester)
   in ((authToken t \<noteq> None) = (\<exists>r \<in> set replies. login_succeeded r)) \<and>
      (\<forall>c. \<not> login_succeeded (fst (perform srv c t)) \<longrightarrow>
             authToken (snd (perform srv c t)) = authToken t) \<and>
      (\<forall>cr. authToken (snd (testAuthentication srv cr t)) =
             (if success (projr (fst (testAuthentication srv cr t)))
              then token (projr (fst (testAuthentication srv cr t))) else authToken t)) \<and>
      (\<forall>m u b. map_of (headers (outgoing t m u b)) ''Authorization'' =
             map_option (\<lambda>tok. ''Bearer '' @ js_string tok) (authToken t))"
proof -
  have ok: "token_ok (snd (perform_all srv calls new_tester))"
    by (rule perform_all_ok [OF new_tester_ok])
  have none: "authToken new_tester = None"
    by (simp add: new_tester_def)
  show ?thesis
    unfolding Let_def
    using perform_all_token [of srv calls new_tester] none
      perform_step(3) [of srv _ "snd (perform_all srv calls new_tester)"]
      token_auth [of srv _ "snd (perform_all srv calls new_tester)"]
      header_iff [OF ok]
    by simp
qed

lemma broken_answer:
  "fst (client_request analytics_broken_backend m u b t) =
     analytics_broken_backend [] \<lparr>verb = m, url = u, body = b, headers = []\<rparr>"
  by (simp add: client_request_def Let_def analytics_broken_backend_def)

lemma broken_login:
  "perform_all analytics_broken_backend [TestAuthentication admin] new_tester =
     ([Inr (Authentication \<lparr>success = True, error = None, token = Some (JStr ''t0k3n'')\<rparr>)],
      (snd (login analytics_broken_backend admin new_tester))\<lparr>authToken := Some (JStr ''t0k3n'')\<rparr>)"
  by (simp add: seq_never auth_never ret_def auth_eval login_def client_defs broken_answer
      analytics_broken_backend_def)

theorem token_set_only_by_login_witness:
  "authToken (snd (perform_all analytics_broken_backend [TestAuthentication admin] new_tester))
     = Some (JStr ''t0k3n'') \<and>
   map_of (headers (outgoing
       (snd (perform_all analytics_broken_backend [TestAuthentication admin] new_tester))
       GET ''/health'' None)) ''Authorization'' = Some ''Bearer t0k3n'' \<and>
   authToken (snd (perform_all down_backend [TestAuthentication admin] new_tester)) = None"
proof -
  have down: "fst (perform_all down_backend [TestAuthentication admin] new_tester) =
      [Inr (Authentication \<lparr>success = False,
         error = Some (JStr ''connect ECONNREFUSED 127.0.0.1:8000''), token = None\<rparr>)]"
    by (simp add: seq_never auth_never ret_def auth_eval login_def client_defs
        client_request_def Let_def down_backend_def refused_def js_or_def)
  show ?thesis
    using token_set_only_by_login [of analytics_broken_backend "[TestAuthentication admin]"]
      token_set_only_by_login [of down_backend "[TestAuthentication admin]"]
    unfolding Let_def broken_login down
    by simp
qed

text \<open>
  Claim C2, as amended. \<open>runFullIntegrationTest\<close> always returns and records the
  connectivity result. When the health check passes, the five other categories are all
  attempted and recorded, whatever each of them returns: the login, the application
  list and create requests, the deployment, the two analytics and the GraphQL requests
  are all sent. When the health check fails the run returns at once: only
  \<open>connectivity\<close> is recorded, the run fails, and no other request is sent.
\<close>

theorem connectivity_gates_full_run:
  "let health = fst (client_get srv ''/health'' t);
       r = fst (runFullIntegrationTest srv t);
       t' = snd (runFullIntegrationTest srv t)
   in \<exists>out. r = Inr out \<and> connectivity (results out) = Some (passed health 200) \<and>
        (if passed health 200
         then authentication (results out) \<noteq> None \<and> applications (results out) \<noteq> None \<and>
              deployments (results out) \<noteq> None \<and> ai (results out) \<noteq> None \<and>
              graphql (results out) \<noteq> None \<and>
              (\<exists>more. requested t t' =
                 [(GET, ''/health''), (POST, ''/auth/login''), (GET, ''/api/v1/applications''),
                  (POST, ''/api/v1/applications'')] @ more @
                 [(GET, ''/api/v1/deployments''), (GET, ''/api/v1/ai/insights''),
                  (GET, ''/api/v1/ai/recommendations''), (POST, ''/graphql'')])
         else results out = no_results\<lparr>connectivity := Some False\<rparr> \<and> \<not> success out \<and>
              requested t t' = [(GET, ''/health'')])"
proof (cases "passed (fst (client_get srv ''/health'' t)) 200")
  case True
  then have c: "projr (fst (testConnectivity srv t))"
    by (simp add: conn_eval)
  from requested_full [OF c] obtain more where
    "requested t (snd (runFullIntegrationTest srv t)) =
       [(GET, ''/health''), (POST, ''/auth/login''), (GET, ''/api/v1/applications''),
        (POST, ''/api/v1/applications'')] @ more @
       [(GET, ''/api/v1/deployments''), (GET, ''/api/v1/ai/insights''),
        (GET, ''/api/v1/ai/recommendations''), (POST, ''/graphql'')]"
    by blast
  moreover have "\<exists>out. fst (runFullIntegrationTest srv t) = Inr out \<and>
      connectivity (results out) = Some True \<and>
      authentication (results out) \<noteq> None \<and> applications (results out) \<noteq> None \<and>
      deployments (results out) \<noteq> None \<and> ai (results out) \<noteq> None \<and>
      graphql (results out) \<noteq> None"
    using c by (simp add: full_eval Let_def no_results_def)
  ultimately show ?thesis
    using True unfolding Let_def by auto
next
  case False
  then have c: "\<not> projr (fst (testConnectivity srv t))"
    by (simp add: conn_eval)
  have "fst (runFullIntegrationTest srv t) =
      Inr \<lparr>success = False, results = no_results\<lparr>connectivity := Some False\<rparr>,
        summary = ''Backend is not accessible. Please ensure ultimate-paas-base is running.''\<rparr>"
    using c by (simp add: full_eval Let_def)
  moreover have "snd (runFullIntegrationTest srv t) = snd (testConnectivity srv t)"
    using c by (simp add: full_eval Let_def)
  ultimately show ?thesis
    using False unfolding Let_def by (simp add: requested_conn no_results_def)
qed

text \<open>
  Claim C2 as stated fails: on a backend that is down, the run stops after the health
  check, and the application endpoints are neither probed nor recorded.
\<close>

theorem connectivity_failure_skips_probes:
  "applications (results (projr (fst (runFullIntegrationTest down_backend new_tester)))) = None \<and>
   requested new_tester (snd (runFullIntegrationTest down_backend new_tester)) =
     [(GET, ''/health'')]"
proof -
  have c: "\<not> projr (fst (testConnectivity down_backend new_tester))"
    by (simp add: conn_eval client_defs client_request_def Let_def down_backend_def)
  show ?thesis
    using c by (simp add: full_eval Let_def requested_conn no_results_def)
qed

text \<open>
  A backend that is up and rejects the login: the login fails, and the application
  endpoints are probed all the same.
\<close>

lemma rejecting_health:
  "passed (fst (client_get login_rejecting_backend ''/health'' new_tester)) 200"
  by (simp add: client_defs client_request_def Let_def login_rejecting_backend_def passed_def)

lemma rejecting_login:
  "\<not> success (projr (fst (testAuthentication login_rejecting_backend admin
       (snd (testConnectivity login_rejecting_backend new_tester)))))"
  by (simp add: auth_eval login_def conn_eval client_defs client_request_def Let_def
      login_rejecting_backend_def outgoing_def interceptor_def new_tester_def)

theorem connectivity_gates_full_run_witness:
  "\<not> success (the (authentication (results
       (projr (fst (runFullIntegrationTest login_rejecting_backend new_tester)))))) \<and>
   applications (results
       (projr (fst (runFullIntegrationTest login_rejecting_backend new_tester)))) \<noteq> None \<and>
   (GET, ''/api/v1/applications'') \<in> set (requested new_tester
       (snd (runFullIntegrationTest login_rejecting_backend new_tester)))"
proof -
  have c: "projr (fst (testConnectivity login_rejecting_backend new_tester))"
    using rejecting_health by (simp add: conn_eval)
  have a: "\<not> success (the (authentication (results
       (projr (fst (runFullIntegrationTest login_rejecting_backend new_tester))))))"
    using c rejecting_login by (simp add: full_eval Let_def)
  show ?thesis
    using connectivity_gates_full_run [of login_rejecting_backend new_tester] rejecting_health a
    unfolding Let_def by auto
qed

lemma broken_ai:
  "\<not> success (projr (fst (testAIEndpoints analytics_broken_backend t)))"
  by (simp add: ai_eval Let_def client_defs broken_answer analytics_broken_backend_def)

lemma broken_gql:
  "\<not> success (projr (fst (testGraphQLEndpoint analytics_broken_backend t)))"
  by (simp add: gql_eval Let_def client_defs broken_answer analytics_broken_backend_def)

lemma broken_conn: "projr (fst (testConnectivity analytics_broken_backend t))"
  by (simp add: conn_eval client_defs broken_answer analytics_broken_backend_def passed_def)

lemma broken_auth: "success (projr (fst (testAuthentication analytics_broken_backend admin t)))"
  by (simp add: auth_eval login_def client_defs broken_answer analytics_broken_backend_def)

lemma broken_dep: "success (projr (fst (testDeploymentEndpoints analytics_broken_backend t)))"
  by (simp add: dep_eval Let_def client_defs broken_answer analytics_broken_backend_def passed_def)

lemma seven: "dec_int 7 = ''7''"
  by code_simp

lemma broken_app: "success (projr (fst (testApplicationEndpoints analytics_broken_backend t)))"
  by (simp add: app_eval after_create_def Let_def client_defs broken_answer
      analytics_broken_backend_def passed_def created_id_def seven)

text \<open>
  Claim C3 on a backend whose analytics routes answer 500 and whose GraphQL endpoint
  answers with \<open>errors\<close>: the recorded \<open>ai\<close> and \<open>graphql\<close> categories have failed, and
  the overall success flag is true.
\<close>

theorem overall_success_ignores_analytics:
  "success (projr (fst (runFullIntegrationTest analytics_broken_backend new_tester))) \<and>
   \<not> success (the (ai (results
        (projr (fst (runFullIntegrationTest analytics_broken_backend new_tester)))))) \<and>
   \<not> success (the (graphql (results
        (projr (fst (runFullIntegrationTest analytics_broken_backend new_tester))))))"
  by (simp add: full_eval Let_def broken_conn broken_auth broken_app broken_dep broken_ai
      broken_gql)

section \<open>Properties of the runner\<close>

lemma port_taken_facts:
  "existsSync port_taken_env p"
  "backend_listen [] (backendOutput port_taken_env) = Resolved"
  "frontend_listen [] (frontendOutput port_taken_env) = Pending"
  by code_simp+

lemma frontend_timeout_facts:
  "existsSync frontend_timeout_env p"
  "backend_listen [] (backendOutput frontend_timeout_env) = Resolved"
  "frontend_listen [] (frontendOutput frontend_timeout_env) =
     Rejected (new_Error ''Frontend failed to start within 60 seconds'')"
  by code_simp+

lemmas run_defs = run_def and_finally_def catching_def and_then_def checkPrerequisites_def
  skip_def startBackend_def startFrontend_def emit_def await_def new_runner_def process_exit_def

text \<open>
  Claim C4 where the dev server reports \<open>Ready in\<close> and never prints \<open>3000\<close>: the
  promise of \<open>startFrontend\<close> is not resolved, since the output lacks \<open>3000\<close>, and not
  rejected by the timer, since the output has \<open>Ready in\<close>. It stays pending, and the run
  that awaits it hangs with both children running.
\<close>

theorem frontend_start_can_hang:
  "frontend_listen [] (frontendOutput port_taken_env) = Pending \<and>
   fst (startFrontend port_taken_env (new_runner 0)) = Hung \<and>
   fst (run port_taken_env (new_runner 0)) = Hung \<and>
   trace (snd (run port_taken_env (new_runner 0))) = [Spawn backend_child, Spawn frontend_child]"
  by (simp add: port_taken_facts run_defs)

text \<open>
  Claim C1 where the frontend does not start within its timeout: \<open>startFrontend\<close>
  throws, the \<open>catch\<close> block of \<open>run\<close> calls \<open>process.exit(1)\<close>, and the process ends
  there. The \<open>finally\<close> block is not reached: \<open>cleanup\<close> is not called and neither
  child is killed.
\<close>

theorem failed_run_skips_cleanup:
  "fst (run frontend_timeout_env (new_runner 0)) = Exited 1 \<and>
   trace (snd (run frontend_timeout_env (new_runner 0))) =
     [Spawn backend_child, Spawn frontend_child, ProcessExit 1]"
  by (simp add: frontend_timeout_facts run_defs)

text \<open>
  A run that nothing interrupts ends normally, calls \<open>cleanup\<close> once and kills both
  children.
\<close>

lemma clean_run_releases_children:
  "fst (run ready_env (new_runner 0)) = Normal () \<and>
   filter is_release (trace (snd (run ready_env (new_runner 0)))) =
     [CleanupCalled, Kill backend_child, Kill frontend_child]"
  by code_simp

text \<open>
  The promise of \<open>startBackend\<close> is settled once its timer has fired.
\<close>

lemma backend_settles:
  "\<not> js_includes out ''Uvicorn running on'' \<Longrightarrow> TimerFired \<in> set evs \<Longrightarrow>
     backend_listen out evs \<noteq> Pending"
  by (induction out evs rule: backend_listen.induct) auto

lemma get_within: "fst (axios_get_within 5000 a) \<le> 5000"
  by (cases a) (simp add: axios_get_within_def)

lemma get_within_ok: "snd (axios_get_within 5000 a) \<Longrightarrow> snd a"
  by (cases a) (simp add: axios_get_within_def split: if_splits)

lemma loop_inv:
  "waitForUrl_loop get start timeout clock k = (w, t, n) \<Longrightarrow>
   clock - start < timeout + 6000 \<Longrightarrow>
     k \<le> n \<and>
     (w = NotReady \<longrightarrow> timeout \<le> t - start \<and> t - start < timeout + 6000 \<and>
        (\<forall>j. k \<le> j \<and> j < n \<longrightarrow> \<not> snd (axios_get_within 5000 (get j)))) \<and>
     (w = Ready \<longrightarrow> k < n \<and> t - start < timeout + 5000 \<and>
        snd (axios_get_within 5000 (get (n - 1))))"
proof (induction get start timeout clock k arbitrary: w t n rule: waitForUrl_loop.induct)
  case (1 get start timeout clock k)
  show ?case
  proof (cases "clock - start < timeout")
    case False
    with "1.prems" show ?thesis
      by (auto simp add: waitForUrl_loop.simps)
  next
    case True
    obtain d ok where a: "axios_get_within 5000 (get k) = (d, ok)"
      by (cases "axios_get_within 5000 (get k)")
    have d: "d \<le> 5000"
      using get_within [of "get k"] a by simp
    show ?thesis
    proof (cases ok)
      case True
      with \<open>clock - start < timeout\<close> a d "1.prems" show ?thesis
        by (auto simp add: waitForUrl_loop.simps)
    next
      case False
      have rec: "waitForUrl_loop get start timeout (clock + int d + 1000) (Suc k) = (w, t, n)"
        using "1.prems"(1) True a False by (simp add: waitForUrl_loop.simps)
      have "clock + int d + 1000 - start < timeout + 6000"
        using True d by simp
      from "1.IH" [OF True a [symmetric] False rec this]
      have ih: "Suc k \<le> n \<and>
         (w = NotReady \<longrightarrow> timeout \<le> t - start \<and> t - start < timeout + 6000 \<and>
            (\<forall>j. Suc k \<le> j \<and> j < n \<longrightarrow> \<not> snd (axios_get_within 5000 (get j)))) \<and>
         (w = Ready \<longrightarrow> Suc k < n \<and> t - start < timeout + 5000 \<and>
            snd (axios_get_within 5000 (get (n - 1))))" .
      have nk: "\<not> snd (axios_get_within 5000 (get k))"
        using a False by simp
      have below: "\<not> snd (axios_get_within 5000 (get j))"
        if "w = NotReady" "k \<le> j" "j < n" for j
      proof (cases "j = k")
        case True
        with nk show ?thesis by simp
      next
        case False
        with that have "Suc k \<le> j" by simp
        with ih that show ?thesis by blast
      qed
      from ih have "k \<le> n" "w = Ready \<longrightarrow> k < n" by auto
      with ih below show ?thesis by blast
    qed
  qed
qed

text \<open>
  Claim C5, as amended. \<open>waitForUrl\<close> always ends (its loop is a total function). It
  returns normally exactly when one of the requests it made got a 2xx answer within the
  5000 ms request timeout, and it throws the \<open>not ready\<close> error otherwise, in
  particular when the target never answers 2xx. The error is thrown no earlier than
  \<open>timeout\<close> ms after the start and less than 6000 ms later than that: the last
  request may start just before the deadline and take up to 5000 ms, and the 1000 ms
  sleep follows it.
\<close>

theorem waitForUrl_settles:
  assumes "0 \<le> timeout"
    and "waitForUrl_loop (httpGet env u) (now r) timeout (now r) 0 = (w, t, n)"
  shows "(w = Ready \<longrightarrow> fst (waitForUrl env u timeout r) = Normal ()) \<and>
         (w = NotReady \<longrightarrow>
            fst (waitForUrl env u timeout r) =
              Thrown (new_Error (''Service at '' @ u @ '' not ready within '' @
                                 dec_int timeout @ ''ms'')) \<and>
            timeout \<le> t - now r \<and> t - now r < timeout + 6000) \<and>
         now (snd (waitForUrl env u timeout r)) = t \<and>
         (w = Ready) = (\<exists>k<n. snd (axios_get_within 5000 (httpGet env u k))) \<and>
         ((\<forall>k. \<not> snd (httpGet env u k)) \<longrightarrow> w = NotReady)"
proof -
  have "now r - now r < timeout + 6000"
    using assms(1) by simp
  from loop_inv [OF assms(2) this]
  have inv: "(w = NotReady \<longrightarrow> timeout \<le> t - now r \<and> t - now r < timeout + 6000 \<and>
        (\<forall>j. j < n \<longrightarrow> \<not> snd (axios_get_within 5000 (httpGet env u j)))) \<and>
     (w = Ready \<longrightarrow> 0 < n \<and> snd (axios_get_within 5000 (httpGet env u (n - 1))))"
    by simp
  have ready: "(w = Ready) = (\<exists>k<n. snd (axios_get_within 5000 (httpGet env u k)))"
  proof (cases w)
    case Ready
    with inv have "n - 1 < n" "snd (axios_get_within 5000 (httpGet env u (n - 1)))"
      by simp_all
    with Ready show ?thesis by blast
  next
    case NotReady
    with inv show ?thesis by simp
  qed
  have never: "(\<forall>k. \<not> snd (httpGet env u k)) \<longrightarrow> w = NotReady"
  proof
    assume no: "\<forall>k. \<not> snd (httpGet env u k)"
    have "\<not> snd (axios_get_within 5000 (httpGet env u k))" for k
      using no get_within_ok [of "httpGet env u k"] by blast
    with ready have "w \<noteq> Ready" by simp
    then show "w = NotReady" by (cases w) simp_all
  qed
  show ?thesis
    using inv ready never assms(2) by (cases w) (simp_all add: waitForUrl_def)
qed

theorem waitForUrl_settles_witness:
  "fst (waitForUrl quiet_env frontendUrl 3000 (new_runner 0)) =
     Thrown (new_Error ''Service at http://localhost:3000 not ready within 3000ms'') \<and>
   now (snd (waitForUrl quiet_env frontendUrl 3000 (new_runner 0))) = 3000"
proof -
  have g0: "httpGet quiet_env frontendUrl = (\<lambda>k. (0, False))"
    by (simp add: quiet_env_def)
  have loop: "waitForUrl_loop (httpGet quiet_env frontendUrl) (now (new_runner 0)) 3000
      (now (new_runner 0)) 0 = (NotReady, 3000, 3)"
    unfolding g0 by (simp add: waitForUrl_loop.simps axios_get_within_def new_runner_def)
  have dec: "dec_int 3000 = ''3000''"
    by code_simp
  have pos: "(0 :: int) \<le> 3000"
    by simp
  show ?thesis
    using waitForUrl_settles [OF pos loop]
    by (simp add: dec frontendUrl_def new_runner_def)
qed

text \<open>
  Claim C5 as stated fails: against a target whose failing answers take 4999 ms each,
  the timeout of 30000 ms is reported after 35994 ms, more than one poll interval
  (1000 ms) late.
\<close>

theorem waitForUrl_overshoots:
  "waitForUrl_loop slow_target 0 30000 0 0 = (NotReady, 35994, 6) \<and>
   \<not> (35994 - 0 \<le> (30000 :: int) + 1000)"
  by (simp add: waitForUrl_loop.simps slow_target_def axios_get_within_def)

lemma member_alt:
  "member (Some v) k =
     (if v = JNull then Inl (TypeError ''Cannot read properties of null'')
      else Inr (opt_member (Some v) k))"
  by (cases v) simp_all

lemma and_then_emit: "and_then (emit ev) f r = f () (r\<lparr>trace := trace r @ [ev]\<rparr>)"
  by (simp add: and_then_def emit_def)

lemma and_then_skip: "and_then skip f r = f () r"
  by (simp add: and_then_def skip_def)

lemma and_then_eval:
  "and_then (eval v) f r = (case v of Inl e \<Rightarrow> (Thrown e, r) | Inr x \<Rightarrow> f x r)"
  by (simp add: and_then_def eval_def split: sum.splits)

lemma and_then_assoc: "and_then (and_then m g) f = and_then m (\<lambda>x. and_then (g x) f)"
  by (rule ext) (simp add: and_then_def split: prod.splits completion.splits)

lemma and_then_Normal: "m r = (Normal x, r') \<Longrightarrow> and_then m f r = f x r'"
  by (simp add: and_then_def)

lemma and_then_if:
  "and_then (if c then a else b) f = (if c then and_then a f else and_then b f)"
  by simp

lemma print_results_objects:
  "JNull \<notin> snd ` set rs \<Longrightarrow>
     print_results rs r =
       (Normal (), r\<lparr>trace := trace r @ concat (map (\<lambda>(n, v). phase_lines n v) rs)\<rparr>)"
proof (induction rs arbitrary: r)
  case Nil
  then show ?case by (simp add: skip_def)
next
  case (Cons a rs)
  obtain n v where a: "a = (n, v)" by (cases a)
  from Cons.prems a have v: "v \<noteq> JNull" by auto
  from Cons.prems have rest: "JNull \<notin> snd ` set rs" by auto
  show ?case
    unfolding a
    using v
    by (simp add: and_then_eval member_alt and_then_emit and_then_skip and_then_assoc
        and_then_if Cons.IH [OF rest] phase_lines_def phase_success_def)
qed

lemma every_success_objects:
  "JNull \<notin> snd ` set rs \<Longrightarrow>
     every_success rs r = (Normal (list_all (\<lambda>(n, v). phase_success v) rs), r)"
proof (induction rs arbitrary: r)
  case Nil
  then show ?case by simp
next
  case (Cons a rs)
  obtain n v where a: "a = (n, v)" by (cases a)
  from Cons.prems a have v: "v \<noteq> JNull" by auto
  from Cons.prems have rest: "JNull \<notin> snd ` set rs" by auto
  show ?case
    unfolding a
    using v
    by (simp add: and_then_eval member_alt Cons.IH [OF rest] phase_success_def)
qed

lemma generateReport_eval:
  assumes "JNull \<notin> snd ` set (report_phases (testResults r))"
  shows "generateReport env r =
    (let tr = testResults r;
         ok = list_all (\<lambda>(n, v). phase_success v) (report_phases tr);
         shown = Print ''Test Results Summary'' #
                 concat (map (\<lambda>(n, v). phase_lines n v) (report_phases tr)) @ verdict_lines ok
     in case writeFileSync env reportPath of
          Some err \<Rightarrow> (Thrown err, r\<lparr>trace := trace r @ shown\<rparr>)
        | None \<Rightarrow>
            (Normal (),
             r\<lparr>trace := trace r @ shown @
                  [WriteFile reportPath (stringify (json_of_test_results tr)),
                   Print (''Detailed report saved to: '' @ reportPath)]\<rparr>))"
proof -
  let ?phases = "[(''API Integration'', integration (testResults r)),
      (''Frontend Tests'', frontend (testResults r)), (''E2E Tests'', e2e (testResults r))]"
  let ?r1 = "r\<lparr>trace := trace r @ [Print ''Test Results Summary'']\<rparr>"
  let ?r2 = "?r1\<lparr>trace := trace ?r1 @ concat (map (\<lambda>(n, v). phase_lines n v) ?phases)\<rparr>"
  have p: "JNull \<notin> snd ` set ?phases"
    using assms by (simp add: report_phases_def)
  have 1: "print_results ?phases ?r1 = (Normal (), ?r2)"
    by (rule print_results_objects [OF p])
  have 2: "every_success ?phases ?r2 =
      (Normal (list_all (\<lambda>(n, v). phase_success v) ?phases), ?r2)"
    by (rule every_success_objects [OF p])
  show ?thesis
    unfolding generateReport_def Let_def report_phases_def
    apply (subst and_then_emit)
    apply (subst and_then_Normal [where m = "print_results ?phases" and r = ?r1, OF 1])
    apply (subst and_then_Normal [where m = "every_success ?phases" and r = ?r2, OF 2])
    apply (simp add: and_then_def emit_def throw_error_def verdict_lines_def
        split: option.splits)
    done
qed

text \<open>
  Claim C7. \<open>generateReport\<close> prints the line \<open>All integration tests passed!\<close> exactly
  when the \<open>success\<close> of each of the three phases (API integration, frontend tests, E2E
  tests) is truthy, and the line \<open>Some tests failed\<close> exactly when one of them is not;
  the \<open>backend\<close> entry of \<open>testResults\<close> plays no part.
\<close>

theorem generateReport_overall:
  assumes "integration (testResults r) \<noteq> JNull"
    and "frontend (testResults r) \<noteq> JNull"
    and "e2e (testResults r) \<noteq> JNull"
  shows "let shown = new_events r (snd (generateReport env r));
             overallSuccess = (phase_success (integration (testResults r)) \<and>
                               phase_success (frontend (testResults r)) \<and>
                               phase_success (e2e (testResults r)))
         in (Print ''All integration tests passed!'' \<in> set shown) = overallSuccess \<and>
            (Print ''Some tests failed. Please review the results above.'' \<in> set shown) =
              (\<not> overallSuccess)"
proof -
  have p: "JNull \<notin> snd ` set (report_phases (testResults r))"
    using assms by (auto simp add: report_phases_def)
  show ?thesis
    unfolding Let_def generateReport_eval [OF p]
    by (auto simp add: new_events_def report_phases_def phase_lines_def verdict_lines_def
        split: option.splits)
qed

theorem generateReport_overall_witness:
  "Print ''All integration tests passed!'' \<in>
     set (new_events passed_runner (snd (generateReport quiet_env passed_runner))) \<and>
   Print ''Some tests failed. Please review the results above.'' \<in>
     set (new_events (new_runner 0) (snd (generateReport quiet_env (new_runner 0))))"
proof -
  have a: "integration (testResults passed_runner) \<noteq> JNull"
    "frontend (testResults passed_runner) \<noteq> JNull" "e2e (testResults passed_runner) \<noteq> JNull"
    by (simp_all add: passed_runner_def)
  have b: "integration (testResults (new_runner 0)) \<noteq> JNull"
    "frontend (testResults (new_runner 0)) \<noteq> JNull" "e2e (testResults (new_runner 0)) \<noteq> JNull"
    by (simp_all add: new_runner_def)
  have pa: "phase_success (integration (testResults passed_runner))"
    "phase_success (frontend (testResults passed_runner))"
    "phase_success (e2e (testResults passed_runner))"
    by (simp_all add: passed_runner_def phase_success_def)
  have pb: "\<not> phase_success (integration (testResults (new_runner 0)))"
    by (simp add: new_runner_def phase_success_def)
  show ?thesis
    using generateReport_overall [OF a, of quiet_env] generateReport_overall [OF b, of quiet_env]
      pa pb
    unfolding Let_def by simp
qed

section \<open>Reading back what \<open>stringify\<close> wrote\<close>

subsection \<open>Numbers\<close>

lemma of_char_of_small: "n < 256 \<Longrightarrow> (of_char (char_of n :: char) :: nat) = n"
  by (simp add: of_char_of)

lemma digit_char: "d < 10 \<Longrightarrow> is_digit (char_of (48 + d)) \<and> (of_char (char_of (48 + d) :: char) :: nat) = 48 + d"
  by (simp add: is_digit_def of_char_of)

lemma dec_nat_nonempty: "dec_nat n \<noteq> []"
  by (subst dec_nat.simps) simp

lemma parse_digits_dec_nat:
  "parse_digits acc (dec_nat n @ rest) =
     parse_digits (acc * 10 ^ length (dec_nat n) + n) rest"
proof (induction n arbitrary: acc rest rule: dec_nat.induct)
  case (1 n)
  show ?case
  proof (cases "n < 10")
    case True
    then show ?thesis
      using digit_char [of n] by (subst (1 2) dec_nat.simps) simp
  next
    case False
    have d: "n mod 10 < 10" by simp
    have "parse_digits acc (dec_nat n @ rest) =
        parse_digits acc (dec_nat (n div 10) @ (char_of (48 + n mod 10) # rest))"
      using False by (subst dec_nat.simps) simp
    also have "\<dots> = parse_digits (acc * 10 ^ length (dec_nat (n div 10)) + n div 10)
        (char_of (48 + n mod 10) # rest)"
      using False by (simp add: "1.IH")
    also have "\<dots> = parse_digits
        ((acc * 10 ^ length (dec_nat (n div 10)) + n div 10) * 10 + n mod 10) rest"
      using digit_char [OF d] by simp
    also have "(acc * 10 ^ length (dec_nat (n div 10)) + n div 10) * 10 + n mod 10 =
        acc * 10 ^ length (dec_nat n) + n"
      using False by (subst (2) dec_nat.simps) (simp add: algebra_simps)
    finally show ?thesis .
  qed
qed

lemma parse_digits_stop: "tail_ok rest \<Longrightarrow> parse_digits a rest = (a, rest)"
  by (cases rest) (simp_all add: tail_ok_def)

lemma dec_nat_digits: "\<forall>c \<in> set (dec_nat n). is_digit c"
proof (induction n rule: dec_nat.induct)
  case (1 n)
  show ?case
  proof (cases "n < 10")
    case True
    then show ?thesis using digit_char [of n] by (subst dec_nat.simps) simp
  next
    case False
    have d: "n mod 10 < 10" by simp
    show ?thesis
      using False "1.IH" digit_char [OF d] by (subst dec_nat.simps) simp
  qed
qed

lemma dec_nat_head:
  "\<exists>c cs. dec_nat n = c # cs \<and> is_digit c \<and> ((of_char c :: nat) = 48 \<longrightarrow> cs = [])"
proof (induction n rule: dec_nat.induct)
  case (1 n)
  show ?case
  proof (cases "n < 10")
    case True
    then show ?thesis using digit_char [of n] by (subst dec_nat.simps) simp
  next
    case False
    then have "n div 10 \<noteq> 0" by simp
    from "1.IH" [OF False] obtain c cs where
      h: "dec_nat (n div 10) = c # cs" "is_digit c" "(of_char c :: nat) = 48 \<longrightarrow> cs = []"
      by blast
    have nz: "(of_char c :: nat) \<noteq> 48"
    proof
      assume z: "(of_char c :: nat) = 48"
      with h have one: "dec_nat (n div 10) = [c]" by simp
      have "n div 10 < 10"
      proof (rule ccontr)
        assume "\<not> n div 10 < 10"
        then have "length (dec_nat (n div 10)) \<ge> 2"
          using dec_nat_nonempty [of "n div 10 div 10"]
          by (subst dec_nat.simps) (simp add: Suc_le_eq)
        with one show False by simp
      qed
      then have "dec_nat (n div 10) = [char_of (48 + n div 10)]"
        by (subst dec_nat.simps) simp
      with one have "c = char_of (48 + n div 10)" by simp
      with z digit_char [OF \<open>n div 10 < 10\<close>] have "n div 10 = 0" by simp
      with \<open>n div 10 \<noteq> 0\<close> show False by simp
    qed
    show ?thesis
      using False h nz by (subst dec_nat.simps) simp
  qed
qed

lemma parse_nat_dec_nat:
  assumes "tail_ok rest"
  shows "parse_nat (dec_nat n @ rest) = Some (n, rest)"
proof -
  obtain c cs where h: "dec_nat n = c # cs" "is_digit c" "(of_char c :: nat) = 48 \<longrightarrow> cs = []"
    using dec_nat_head by blast
  have all: "parse_digits 0 (dec_nat n @ rest) = (n, rest)"
    by (simp add: parse_digits_dec_nat parse_digits_stop [OF assms])
  have lead: "\<not> ((of_char c :: nat) = 48 \<and> cs @ rest \<noteq> [] \<and> is_digit (hd (cs @ rest)))"
  proof (cases "(of_char c :: nat) = 48")
    case True
    with h have "cs = []" by simp
    with assms show ?thesis by (cases rest) (simp_all add: tail_ok_def)
  next
    case False
    then show ?thesis by simp
  qed
  show ?thesis
    using all lead h unfolding parse_nat_def by simp
qed

subsection \<open>Strings\<close>

lemma hex_digits: "\<forall>d \<in> set [0..<16]. hex_value (hex_digit d) = Some d"
  by code_simp

lemma hex_digit_value: "d < 16 \<Longrightarrow> hex_value (hex_digit d) = Some d"
  using hex_digits by simp

lemma hex_zero: "hex_value CHR ''0'' = Some 0"
  by code_simp

lemma char_eq_iff: "(of_char c :: nat) = n \<Longrightarrow> c = char_of n"
  by auto

lemma named_chars:
  "char_of (34 :: nat) = CHR 0x22" "char_of (92 :: nat) = CHR 0x5C"
  "char_of (8 :: nat) = CHR 0x08" "char_of (12 :: nat) = CHR 0x0C"
  "char_of (10 :: nat) = CHR 0x0A" "char_of (13 :: nat) = CHR 0x0D"
  "char_of (9 :: nat) = CHR 0x09"
  by code_simp+

lemma cons_result_Some [simp]: "cons_result x (Some (xs, r)) = Some (x # xs, r)"
  by (simp add: cons_result_def)

lemma parse_chars_escape:
  "parse_chars (escape_char c @ t) = cons_result c (parse_chars t)"
proof -
  define n where "n = (of_char c :: nat)"
  have c: "c = char_of n" by (simp add: n_def)
  have small: "n < 256" by (simp add: n_def)
  consider "n = 0x22" | "n = 0x5C" | "n = 8" | "n = 12" | "n = 10" | "n = 13" | "n = 9"
    | "n < 32" "n \<noteq> 8" "n \<noteq> 12" "n \<noteq> 10" "n \<noteq> 13" "n \<noteq> 9"
    | "32 \<le> n" "n \<noteq> 0x22" "n \<noteq> 0x5C"
    by linarith
  then show ?thesis
  proof cases
    case 8
    have hi: "n div 16 < 16" and lo: "n mod 16 < 16" using 8 by simp_all
    have val: "((0 * 16 + 0) * 16 + n div 16) * 16 + n mod 16 = n" by simp
    have esc: "escape_char c =
        [CHR 0x5C, CHR ''u'', CHR ''0'', CHR ''0'', hex_digit (n div 16), hex_digit (n mod 16)]"
      using 8 by (simp add: escape_char_def n_def [symmetric] Let_def)
    show ?thesis
      unfolding esc
      using small
      by (simp add: hex4_def hex_zero hex_digit_value [OF hi] hex_digit_value [OF lo] c)
  next
    case 9
    then have esc: "escape_char c = [c]"
      by (simp add: escape_char_def n_def [symmetric] Let_def)
    show ?thesis
      unfolding esc using 9 by (simp add: n_def [symmetric])
  qed (simp_all add: escape_char_def n_def [symmetric] Let_def unescape_def c named_chars)
qed

lemma parse_chars_quote:
  "parse_chars (concat (map escape_char s) @ CHR 0x22 # rest) = Some (s, rest)"
  by (induction s) (simp_all add: parse_chars_escape)

subsection \<open>Values\<close>

lemma ws_chars: "is_ws (CHR '' '')" "is_ws (CHR 0x0A)"
  by (simp_all add: is_ws_def)

lemma skip_ws_pre:
  "\<forall>c \<in> set pre. is_ws c \<Longrightarrow> \<not> is_ws c \<Longrightarrow> skip_ws (pre @ c # cs) = c # cs"
  by (simp add: skip_ws_def dropWhile_append3)

lemma spaces_ws: "\<forall>c \<in> set (spaces n). is_ws c"
  by (simp add: spaces_def ws_chars)

lemma digit_not:
  assumes "is_digit c"
  shows "\<not> is_ws c" "c \<noteq> CHR ''n''" "c \<noteq> CHR ''t''" "c \<noteq> CHR ''f''" "(of_char c :: nat) \<noteq> 0x22"
    "c \<noteq> CHR ''[''" "c \<noteq> CHR ''{''" "c \<noteq> CHR ''-''" "c \<noteq> CHR '']''" "c \<noteq> CHR ''}''"
  using assms by (auto simp add: is_digit_def is_ws_def)

lemma pv_null:
  "\<forall>c \<in> set pre. is_ws c \<Longrightarrow>
     parse_value (Suc f) (pre @ stringify_at i JNull @ rest) = Some (JNull, rest)"
  using skip_ws_pre [of pre "CHR ''n''" "''ull'' @ rest"]
  by (simp add: is_ws_def literal_def)

lemma pv_bool:
  "\<forall>c \<in> set pre. is_ws c \<Longrightarrow>
     parse_value (Suc f) (pre @ stringify_at i (JBool b) @ rest) = Some (JBool b, rest)"
  using skip_ws_pre [of pre "CHR ''t''" "''rue'' @ rest"]
    skip_ws_pre [of pre "CHR ''f''" "''alse'' @ rest"]
  by (simp add: is_ws_def literal_def)

lemma pv_str:
  "\<forall>c \<in> set pre. is_ws c \<Longrightarrow>
     parse_value (Suc f) (pre @ stringify_at i (JStr s) @ rest) = Some (JStr s, rest)"
  using skip_ws_pre [of pre "CHR 0x22" "concat (map escape_char s) @ CHR 0x22 # rest"]
  by (simp add: is_ws_def quote_def parse_chars_quote)

lemma pv_num:
  assumes "\<forall>c \<in> set pre. is_ws c" and "tail_ok rest"
  shows "parse_value (Suc f) (pre @ stringify_at i (JNum n) @ rest) = Some (JNum n, rest)"
proof (cases "n < 0")
  case True
  have "skip_ws (pre @ CHR ''-'' # dec_nat (nat (- n)) @ rest) =
      CHR ''-'' # dec_nat (nat (- n)) @ rest"
    using assms(1) by (rule skip_ws_pre) (simp add: is_ws_def)
  then show ?thesis
    using True by (simp add: dec_int_def parse_nat_dec_nat [OF assms(2)])
next
  case False
  obtain c cs where h: "dec_nat (nat n) = c # cs" "is_digit c"
    using dec_nat_head by blast
  have sk: "skip_ws (pre @ c # cs @ rest) = c # cs @ rest"
    using assms(1) digit_not(1) [OF h(2)] by (rule skip_ws_pre)
  have pn: "parse_nat (c # cs @ rest) = Some (nat n, rest)"
    using parse_nat_dec_nat [OF assms(2), of "nat n"] h by simp
  show ?thesis
    using False sk pn digit_not [OF h(2)] by (simp add: dec_int_def h)
qed

lemma first_char:
  "\<exists>c cs. stringify_at i v = c # cs \<and> \<not> is_ws c \<and> c \<noteq> CHR '']'' \<and> c \<noteq> CHR ''}''"
proof (cases v)
  case (JNum n)
  obtain c cs where h: "dec_nat (nat (- n)) = c # cs" "is_digit c"
    using dec_nat_head by blast
  obtain d ds where g: "dec_nat (nat n) = d # ds" "is_digit d"
    using dec_nat_head by blast
  show ?thesis
    using JNum h g digit_not [OF g(2)] by (simp add: dec_int_def is_ws_def)
qed (simp_all add: is_ws_def quote_def)

subsection \<open>Arrays and objects\<close>

lemma tail_ok_simps [simp]:
  "tail_ok (newline @ t)" "tail_ok (CHR '','' # t)" "tail_ok []"
  by (simp_all add: tail_ok_def newline_def is_digit_def)

lemma skip_ws_close:
  "skip_ws (newline @ spaces k @ CHR '']'' # rest) = CHR '']'' # rest"
  "skip_ws (newline @ spaces k @ CHR ''}'' # rest) = CHR ''}'' # rest"
  using skip_ws_pre [of "newline @ spaces k" "CHR '']''" rest]
    skip_ws_pre [of "newline @ spaces k" "CHR ''}''" rest] spaces_ws [of k]
  by (simp_all add: newline_def ws_chars is_ws_def)

lemma skip_ws_char:
  "\<not> is_ws c \<Longrightarrow> skip_ws (c # cs) = c # cs"
  by (simp add: skip_ws_def)

lemma elements_first:
  assumes "xs \<noteq> []" and "\<forall>c \<in> set pre. is_ws c"
  shows "\<exists>c cs. skip_ws (pre @ stringify_elements j xs @ t) = c # cs \<and> c \<noteq> CHR '']''"
proof -
  obtain x xs' where xs: "xs = x # xs'" using assms(1) by (cases xs) auto
  obtain c cs where h: "stringify_at j x = c # cs" "\<not> is_ws c" "c \<noteq> CHR '']''"
    using first_char by blast
  obtain more where m: "stringify_elements j xs = spaces j @ c # more"
    unfolding xs using h(1) by (cases xs') simp_all
  have "skip_ws ((pre @ spaces j) @ c # (more @ t)) = c # (more @ t)"
    using assms(2) spaces_ws [of j] h(2) by (intro skip_ws_pre) auto
  then show ?thesis using m h(3) by simp
qed

lemma members_first:
  assumes "kvs \<noteq> []" and "\<forall>c \<in> set pre. is_ws c"
  shows "\<exists>cs. skip_ws (pre @ stringify_members j kvs @ t) = CHR 0x22 # cs"
proof -
  obtain k v kvs' where kvs: "kvs = (k, v) # kvs'" using assms(1) by (cases kvs) auto
  obtain more where m: "stringify_members j kvs = spaces j @ CHR 0x22 # more"
    unfolding kvs by (cases kvs') (simp_all add: quote_def)
  have "skip_ws ((pre @ spaces j) @ CHR 0x22 # (more @ t)) = CHR 0x22 # (more @ t)"
    using assms(2) spaces_ws [of j] by (intro skip_ws_pre) (auto simp add: is_ws_def)
  then show ?thesis using m by simp
qed

lemma parse_stringify:
  shows "\<And>fuel rest pre. length (stringify_at i v) < fuel \<Longrightarrow> tail_ok rest \<Longrightarrow>
           \<forall>c \<in> set pre. is_ws c \<Longrightarrow>
           parse_value fuel (pre @ stringify_at i v @ rest) = Some (v, rest)"
    and "\<And>fuel rest pre k. xs \<noteq> [] \<Longrightarrow> 0 < j \<Longrightarrow>
           length (stringify_elements j xs) < fuel \<Longrightarrow> \<forall>c \<in> set pre. is_ws c \<Longrightarrow>
           parse_elements fuel
             (pre @ stringify_elements j xs @ newline @ spaces k @ CHR '']'' # rest) =
           Some (xs, rest)"
    and "\<And>fuel rest pre k. kvs \<noteq> [] \<Longrightarrow> 0 < l \<Longrightarrow>
           length (stringify_members l kvs) < fuel \<Longrightarrow> \<forall>c \<in> set pre. is_ws c \<Longrightarrow>
           parse_members fuel
             (pre @ stringify_members l kvs @ newline @ spaces k @ CHR ''}'' # rest) =
           Some (kvs, rest)"
proof (induction i v and j xs and l kvs
    rule: stringify_at_stringify_elements_stringify_members.induct)
  case (1 i)
  then obtain f where "fuel = Suc f" by (cases fuel) auto
  with 1 show ?case by (simp only: pv_null)
next
  case (2 i b)
  then obtain f where "fuel = Suc f" by (cases fuel) auto
  with 2 show ?case by (simp only: pv_bool)
next
  case (3 i n)
  then obtain f where "fuel = Suc f" by (cases fuel) auto
  with 3 show ?case by (simp only: pv_num)
next
  case (4 i s)
  then obtain f where "fuel = Suc f" by (cases fuel) auto
  with 4 show ?case by (simp only: pv_str)
next
  case (5 i xs)
  from "5.prems"(1) obtain f where fuel: "fuel = Suc f" by (cases fuel) auto
  have open_ws: "\<not> is_ws (CHR ''['')" by (simp add: is_ws_def)
  show ?case
  proof (cases "xs = []")
    case True
    have "skip_ws (pre @ CHR ''['' # CHR '']'' # rest) = CHR ''['' # CHR '']'' # rest"
      using "5.prems"(3) open_ws by (rule skip_ws_pre)
    moreover have "skip_ws (CHR '']'' # rest) = CHR '']'' # rest"
      by (rule skip_ws_char) (simp add: is_ws_def)
    ultimately show ?thesis
      using True by (simp add: fuel)
  next
    case False
    let ?body = "newline @ stringify_elements (i + 2) xs @ newline @ spaces i @ CHR '']'' # rest"
    have shape: "pre @ stringify_at i (JArr xs) @ rest = pre @ CHR ''['' # ?body"
      using False by (simp del: add_2_eq_Suc' add_2_eq_Suc)
    have sk: "skip_ws (pre @ CHR ''['' # ?body) = CHR ''['' # ?body"
      using "5.prems"(3) open_ws by (rule skip_ws_pre)
    have nl: "\<forall>c \<in> set newline. is_ws c"
      by (simp add: newline_def ws_chars)
    obtain c cs where first: "skip_ws ?body = c # cs" "c \<noteq> CHR '']''"
      using elements_first [OF False nl] by blast
    have len: "length (stringify_elements (i + 2) xs) < f"
      using "5.prems"(1) False by (simp add: fuel newline_def)
    have inner: "parse_elements f ?body = Some (xs, rest)"
      using "5.IH" [OF False False _ len nl] by simp
    show ?thesis
      unfolding shape fuel
      by (simp add: sk first inner del: add_2_eq_Suc' add_2_eq_Suc)
  qed
next
  case (6 i kvs)
  from "6.prems"(1) obtain f where fuel: "fuel = Suc f" by (cases fuel) auto
  have open_ws: "\<not> is_ws (CHR ''{'')" by (simp add: is_ws_def)
  show ?case
  proof (cases "kvs = []")
    case True
    have "skip_ws (pre @ CHR ''{'' # CHR ''}'' # rest) = CHR ''{'' # CHR ''}'' # rest"
      using "6.prems"(3) open_ws by (rule skip_ws_pre)
    moreover have "skip_ws (CHR ''}'' # rest) = CHR ''}'' # rest"
      by (rule skip_ws_char) (simp add: is_ws_def)
    ultimately show ?thesis
      using True by (simp add: fuel)
  next
    case False
    let ?body = "newline @ stringify_members (i + 2) kvs @ newline @ spaces i @ CHR ''}'' # rest"
    have shape: "pre @ stringify_at i (JObj kvs) @ rest = pre @ CHR ''{'' # ?body"
      using False by (simp del: add_2_eq_Suc' add_2_eq_Suc)
    have sk: "skip_ws (pre @ CHR ''{'' # ?body) = CHR ''{'' # ?body"
      using "6.prems"(3) open_ws by (rule skip_ws_pre)
    have nl: "\<forall>c \<in> set newline. is_ws c"
      by (simp add: newline_def ws_chars)
    obtain cs where first: "skip_ws ?body = CHR 0x22 # cs"
      using members_first [OF False nl] by blast
    have len: "length (stringify_members (i + 2) kvs) < f"
      using "6.prems"(1) False by (simp add: fuel newline_def)
    have inner: "parse_members f ?body = Some (kvs, rest)"
      using "6.IH" [OF False False _ len nl] by simp
    show ?thesis
      unfolding shape fuel
      by (simp add: sk first inner del: add_2_eq_Suc' add_2_eq_Suc)
  qed
next
  case (7 j)
  then show ?case by simp
next
  case (8 j x)
  from "8.prems"(3) obtain f where fuel: "fuel = Suc f" by (cases fuel) auto
  let ?tail = "newline @ spaces k @ CHR '']'' # rest"
  have ws: "\<forall>c \<in> set (pre @ spaces j). is_ws c"
    using "8.prems"(4) spaces_ws [of j] by auto
  have len: "length (stringify_at j x) < f"
    using "8.prems"(2,3) by (simp add: fuel spaces_def)
  have v: "parse_value f ((pre @ spaces j) @ stringify_at j x @ ?tail) = Some (x, ?tail)"
    using "8.IH" [OF len _ ws] by simp
  show ?case
    using v by (simp add: fuel skip_ws_close)
next
  case (9 j x y xs)
  from "9.prems"(3) obtain f where fuel: "fuel = Suc f" by (cases fuel) auto
  let ?more = "newline @ stringify_elements j (y # xs) @ newline @ spaces k @ CHR '']'' # rest"
  have ws: "\<forall>c \<in> set (pre @ spaces j). is_ws c"
    using "9.prems"(4) spaces_ws [of j] by auto
  have nl: "\<forall>c \<in> set newline. is_ws c"
    by (simp add: newline_def ws_chars)
  have len: "length (stringify_at j x) < f"
    using "9.prems"(2,3) by (simp add: fuel spaces_def)
  have len2: "length (stringify_elements j (y # xs)) < f"
    using "9.prems"(2,3) by (simp add: fuel spaces_def newline_def)
  have v: "parse_value f ((pre @ spaces j) @ stringify_at j x @ CHR '','' # ?more) =
      Some (x, CHR '','' # ?more)"
    using "9.IH"(1) [OF len _ ws] by simp
  have comma: "skip_ws (CHR '','' # ?more) = CHR '','' # ?more"
    by (rule skip_ws_char) (simp add: is_ws_def)
  have "y # xs \<noteq> []" by simp
  from "9.IH"(2) [OF this "9.prems"(2) len2 nl]
  have e: "parse_elements f ?more = Some (y # xs, rest)" by simp
  show ?case
    using v by (simp add: fuel comma e)
next
  case (10 l)
  then show ?case by simp
next
  case (11 l k' v)
  from "11.prems"(3) obtain f where fuel: "fuel = Suc f" by (cases fuel) auto
  let ?tail = "newline @ spaces k @ CHR ''}'' # rest"
  let ?val = "CHR '' '' # stringify_at l v @ ?tail"
  have ws: "\<forall>c \<in> set (pre @ spaces l). is_ws c"
    using "11.prems"(4) spaces_ws [of l] by auto
  have key: "skip_ws ((pre @ spaces l) @ CHR 0x22 # concat (map escape_char k') @ CHR 0x22 #
      CHR '':'' # ?val) = CHR 0x22 # concat (map escape_char k') @ CHR 0x22 # CHR '':'' # ?val"
    using ws by (rule skip_ws_pre) (simp add: is_ws_def)
  have colon: "skip_ws (CHR '':'' # ?val) = CHR '':'' # ?val"
    by (rule skip_ws_char) (simp add: is_ws_def)
  have len: "length (stringify_at l v) < f"
    using "11.prems"(2,3) by (simp add: fuel spaces_def)
  have sp: "\<forall>c \<in> set [CHR '' '']. is_ws c" by (simp add: ws_chars)
  have v: "parse_value f ([CHR '' ''] @ stringify_at l v @ ?tail) = Some (v, ?tail)"
    using "11.IH" [OF len _ sp] by simp
  show ?case
    using key colon v
    by (simp add: fuel quote_def parse_chars_quote skip_ws_close)
next
  case (12 l k' v m kvs)
  from "12.prems"(3) obtain f where fuel: "fuel = Suc f" by (cases fuel) auto
  let ?more = "newline @ stringify_members l (m # kvs) @ newline @ spaces k @ CHR ''}'' # rest"
  let ?val = "CHR '' '' # stringify_at l v @ CHR '','' # ?more"
  have ws: "\<forall>c \<in> set (pre @ spaces l). is_ws c"
    using "12.prems"(4) spaces_ws [of l] by auto
  have nl: "\<forall>c \<in> set newline. is_ws c"
    by (simp add: newline_def ws_chars)
  have key: "skip_ws ((pre @ spaces l) @ CHR 0x22 # concat (map escape_char k') @ CHR 0x22 #
      CHR '':'' # ?val) = CHR 0x22 # concat (map escape_char k') @ CHR 0x22 # CHR '':'' # ?val"
    using ws by (rule skip_ws_pre) (simp add: is_ws_def)
  have colon: "skip_ws (CHR '':'' # ?val) = CHR '':'' # ?val"
    by (rule skip_ws_char) (simp add: is_ws_def)
  have len: "length (stringify_at l v) < f"
    using "12.prems"(2,3) by (simp add: fuel spaces_def)
  have len2: "length (stringify_members l (m # kvs)) < f"
    using "12.prems"(2,3) by (simp add: fuel spaces_def newline_def)
  have sp: "\<forall>c \<in> set [CHR '' '']. is_ws c" by (simp add: ws_chars)
  have v: "parse_value f ([CHR '' ''] @ stringify_at l v @ CHR '','' # ?more) =
      Some (v, CHR '','' # ?more)"
    using "12.IH"(1) [OF len _ sp] by simp
  have comma: "skip_ws (CHR '','' # ?more) = CHR '','' # ?more"
    by (rule skip_ws_char) (simp add: is_ws_def)
  have "m # kvs \<noteq> []" by simp
  from "12.IH"(2) [OF this "12.prems"(2) len2 nl]
  have e: "parse_members f ?more = Some (m # kvs, rest)" by simp
  show ?case
    using key colon v comma e
    by (simp add: fuel quote_def parse_chars_quote)
qed

lemma parse_stringify_roundtrip: "parse (stringify v) = Some v"
proof -
  have "parse_value (Suc (length (stringify v))) ([] @ stringify_at 0 v @ []) = Some (v, [])"
    by (rule parse_stringify(1)) (simp_all add: stringify_def)
  then show ?thesis
    by (simp add: parse_def stringify_def skip_ws_def)
qed

section \<open>The report file\<close>

text \<open>
  Claim C8. When \<open>generateReport\<close> writes the report, the file it writes is the only
  one, its content is \<open>JSON.stringify(testResults, null, 2)\<close>, and parsing that content
  gives back the whole \<open>testResults\<close> tree. In particular the \<open>success\<close> of each of the
  three phases read from the parsed report is truthy exactly when the console summary
  shows \<open>PASS\<close> for that phase.
\<close>

theorem report_roundtrip:
  assumes "integration (testResults r) \<noteq> JNull"
    and "frontend (testResults r) \<noteq> JNull"
    and "e2e (testResults r) \<noteq> JNull"
    and "writeFileSync env reportPath = None"
  shows "let shown = new_events r (snd (generateReport env r));
             report = stringify (json_of_test_results (testResults r));
             back = parse report
         in WriteFile reportPath report \<in> set shown \<and>
            (\<forall>p c. WriteFile p c \<in> set shown \<longrightarrow> p = reportPath \<and> c = report) \<and>
            back = Some (json_of_test_results (testResults r)) \<and>
            (Print ''API Integration: PASS'' \<in> set shown) =
              truthy (opt_member (opt_member back ''integration'') ''success'') \<and>
            (Print ''Frontend Tests: PASS'' \<in> set shown) =
              truthy (opt_member (opt_member back ''frontend'') ''success'') \<and>
            (Print ''E2E Tests: PASS'' \<in> set shown) =
              truthy (opt_member (opt_member back ''e2e'') ''success'')"
proof -
  have p: "JNull \<notin> snd ` set (report_phases (testResults r))"
    using assms(1-3) by (auto simp add: report_phases_def)
  show ?thesis
    unfolding Let_def generateReport_eval [OF p] parse_stringify_roundtrip
    using assms(4)
    by (auto simp add: new_events_def report_phases_def phase_lines_def verdict_lines_def
        phase_success_def json_of_test_results_def)
qed

theorem report_roundtrip_witness:
  "parse (stringify (json_of_test_results (testResults passed_runner))) =
     Some (json_of_test_results (testResults passed_runner)) \<and>
   Print ''API Integration: PASS'' \<in>
     set (new_events passed_runner (snd (generateReport quiet_env passed_runner))) \<and>
   \<not> Print ''E2E Tests: PASS'' \<in>
     set (new_events (new_runner 0) (snd (generateReport quiet_env (new_runner 0))))"
proof -
  have a: "integration (testResults passed_runner) \<noteq> JNull"
    "frontend (testResults passed_runner) \<noteq> JNull" "e2e (testResults passed_runner) \<noteq> JNull"
    by (simp_all add: passed_runner_def)
  have b: "integration (testResults (new_runner 0)) \<noteq> JNull"
    "frontend (testResults (new_runner 0)) \<noteq> JNull" "e2e (testResults (new_runner 0)) \<noteq> JNull"
    by (simp_all add: new_runner_def)
  have w: "writeFileSync quiet_env reportPath = None"
    by (simp add: quiet_env_def)
  have ta: "truthy (opt_member (opt_member
      (Some (json_of_test_results (testResults passed_runner))) ''integration'') ''success'')"
    by (simp add: passed_runner_def json_of_test_results_def)
  have tb: "\<not> truthy (opt_member (opt_member
      (Some (json_of_test_results (testResults (new_runner 0)))) ''e2e'') ''success'')"
    by (simp add: new_runner_def json_of_test_results_def)
  show ?thesis
    using report_roundtrip [OF a w] report_roundtrip [OF b w] ta tb
    unfolding Let_def by simp
qed

end
